theory Spec2Isabelle
  imports Complex_Main
begin

section \<open>Floating-point values of numpy\<close>

text \<open>
  The arrays of \<^verbatim>\<open>qc.py\<close> hold float64 values. They are modelled with their special
  values kept and their rounding left out: a finite value is an exact real, and
  \<open>PInf\<close>, \<open>NInf\<close> and \<open>NaN\<close> are the two infinities and not-a-number. Overflow to
  infinity and the sign of zero are not modelled (a finite nonzero value divided by
  zero is taken as divided by \<open>+0\<close>). numpy and pandas do not raise on a division by
  zero: they return an infinity or not-a-number, and the source tests for them with
  \<^verbatim>\<open>np.isnan\<close> and \<^verbatim>\<open>np.isinf\<close>.
\<close>

datatype fl = Fin real | PInf | NInf | NaN

instantiation fl :: "{zero, one, plus, uminus, minus, times, inverse, ord}"
begin

definition zero_fl :: fl where
  "zero_fl = Fin 0"

definition one_fl :: fl where
  "one_fl = Fin 1"

fun plus_fl :: "fl \<Rightarrow> fl \<Rightarrow> fl" where
  "plus_fl NaN y = NaN"
| "plus_fl x NaN = NaN"
| "plus_fl (Fin a) (Fin b) = Fin (a + b)"
| "plus_fl PInf NInf = NaN"
| "plus_fl NInf PInf = NaN"
| "plus_fl PInf y = PInf"
| "plus_fl NInf y = NInf"
| "plus_fl (Fin a) y = y"

fun uminus_fl :: "fl \<Rightarrow> fl" where
  "uminus_fl (Fin a) = Fin (- a)"
| "uminus_fl PInf = NInf"
| "uminus_fl NInf = PInf"
| "uminus_fl NaN = NaN"

definition minus_fl :: "fl \<Rightarrow> fl \<Rightarrow> fl" where
  "minus_fl (x::fl) y = x + (- y)"

fun times_fl :: "fl \<Rightarrow> fl \<Rightarrow> fl" where
  "times_fl NaN y = NaN"
| "times_fl x NaN = NaN"
| "times_fl (Fin a) (Fin b) = Fin (a * b)"
| "times_fl (Fin a) PInf = (if a = 0 then NaN else if 0 < a then PInf else NInf)"
| "times_fl (Fin a) NInf = (if a = 0 then NaN else if 0 < a then NInf else PInf)"
| "times_fl PInf (Fin b) = (if b = 0 then NaN else if 0 < b then PInf else NInf)"
| "times_fl NInf (Fin b) = (if b = 0 then NaN else if 0 < b then NInf else PInf)"
| "times_fl PInf PInf = PInf"
| "times_fl PInf NInf = NInf"
| "times_fl NInf PInf = NInf"
| "times_fl NInf NInf = PInf"

fun divide_fl :: "fl \<Rightarrow> fl \<Rightarrow> fl" where
  "divide_fl NaN y = NaN"
| "divide_fl x NaN = NaN"
| "divide_fl (Fin a) (Fin b) =
     (if b \<noteq> 0 then Fin (a / b)
      else if 0 < a then PInf else if a < 0 then NInf else NaN)"
| "divide_fl (Fin a) y = Fin 0"
| "divide_fl PInf (Fin b) = (if 0 \<le> b then PInf else NInf)"
| "divide_fl NInf (Fin b) = (if 0 \<le> b then NInf else PInf)"
| "divide_fl x y = NaN"

fun less_fl :: "fl \<Rightarrow> fl \<Rightarrow> bool" where
  "less_fl (Fin a) (Fin b) = (a < b)"
| "less_fl NInf (Fin b) = True"
| "less_fl NInf PInf = True"
| "less_fl (Fin a) PInf = True"
| "less_fl x y = False"

fun less_eq_fl :: "fl \<Rightarrow> fl \<Rightarrow> bool" where
  "less_eq_fl (Fin a) (Fin b) = (a \<le> b)"
| "less_eq_fl NaN y = False"
| "less_eq_fl x NaN = False"
| "less_eq_fl NInf y = True"
| "less_eq_fl x PInf = True"
| "less_eq_fl x y = False"

definition inverse_fl :: "fl \<Rightarrow> fl" where
  "inverse_fl (x::fl) = divide (Fin 1) x"

instance ..

end

text \<open>\<^verbatim>\<open>np.isnan\<close>, \<^verbatim>\<open>np.isinf\<close> and \<^verbatim>\<open>np.sqrt\<close>.\<close>

fun isnan :: "fl \<Rightarrow> bool" where
  "isnan NaN = True"
| "isnan x = False"

fun isinf :: "fl \<Rightarrow> bool" where
  "isinf PInf = True"
| "isinf NInf = True"
| "isinf x = False"

fun fsqrt :: "fl \<Rightarrow> fl" where
  "fsqrt (Fin a) = (if 0 \<le> a then Fin (sqrt a) else NaN)"
| "fsqrt PInf = PInf"
| "fsqrt x = NaN"

text \<open>\<^verbatim>\<open>np.sum\<close> of a vector and the inner product \<^verbatim>\<open>u.dot(v)\<close>.\<close>

definition fsum :: "fl list \<Rightarrow> fl" where
  "fsum xs = foldr (+) xs 0"

definition fdot :: "fl list \<Rightarrow> fl list \<Rightarrow> fl" where
  "fdot u v = fsum (map2 (*) u v)"

text \<open>
  \<^verbatim>\<open>np.log\<close>, \<^verbatim>\<open>np.log2\<close> and \<^verbatim>\<open>np.ceil\<close>: the logarithm of zero is minus infinity and
  that of a negative value is not-a-number.
\<close>

fun flog :: "fl \<Rightarrow> fl" where
  "flog (Fin a) = (if 0 < a then Fin (ln a) else if a = 0 then NInf else NaN)"
| "flog PInf = PInf"
| "flog x = NaN"

fun flog2 :: "fl \<Rightarrow> fl" where
  "flog2 (Fin a) = (if 0 < a then Fin (log 2 a) else if a = 0 then NInf else NaN)"
| "flog2 PInf = PInf"
| "flog2 x = NaN"

fun fceil :: "fl \<Rightarrow> fl" where
  "fceil (Fin a) = Fin (of_int \<lceil>a\<rceil>)"
| "fceil x = x"

text \<open>Matrices are lists of rows: \<^verbatim>\<open>M @ v\<close> and \<^verbatim>\<open>A @ B\<close>.\<close>

definition matvec :: "fl list list \<Rightarrow> fl list \<Rightarrow> fl list" where
  "matvec M v = map (\<lambda>row. fdot row v) M"

definition matmul :: "fl list list \<Rightarrow> fl list list \<Rightarrow> fl list list" where
  "matmul A B = map (\<lambda>row. map (\<lambda>col. fdot row col) (transpose B)) A"

section \<open>Errors, loci and eigen-spectra\<close>

text \<open>
  An exception is a value. \<open>ValueError\<close> carries the message of the source where the
  source raises it itself; \<open>OverflowError\<close> is Python's \<^verbatim>\<open>int\<close> of an infinity.
\<close>

datatype error = ValueError string | OverflowError | LibraryError string

text \<open>
  One row of the summary statistics (the columns \<^verbatim>\<open>SNPID\<close>, \<^verbatim>\<open>BETA\<close>, \<^verbatim>\<open>SE\<close>, \<^verbatim>\<open>P\<close>),
  and a locus: the rows, the LD matrix \<^verbatim>\<open>ld.r\<close> as a list of rows, the sample size and
  the two labels.
\<close>

record sumstat =
  snpid :: string
  beta :: fl
  se :: fl
  pval :: fl

record locus =
  sumstats :: "sumstat list"
  ld_r :: "fl list list"
  sample_size :: int
  popu :: string
  cohort :: string

text \<open>
  Modelled from the spec: \<^verbatim>\<open>Locus.copy\<close> and \<^verbatim>\<open>intersect_sumstat_ld\<close> of
  \<^verbatim>\<open>credtools.locus\<close>, which is not among the sources. The spec makes the alignment of
  the summary statistics with the LD matrix a precondition of every component, so on
  the aligned loci modelled here the intersection returns its argument; the copy is a
  fresh object with the same contents.
\<close>

definition copy :: "locus \<Rightarrow> locus" where
  "copy l = l"

definition intersect_sumstat_ld :: "locus \<Rightarrow> locus" where
  "intersect_sumstat_ld l = l"

section \<open>The eigen-spectrum and the library routines\<close>

text \<open>
  The dictionary of \<^verbatim>\<open>get_eigen\<close>: the keys \<^verbatim>\<open>eigvals\<close> and \<^verbatim>\<open>eigvecs\<close>, the
  eigenvectors as the columns of a matrix.
\<close>

record eigens =
  eigvals :: "fl list"
  eigvecs :: "fl list list"

text \<open>
  The routines of numpy, scipy and scikit-learn that the source calls are parameters of
  the model, so that every theorem holds whatever they compute:
  \<^item> \<open>eigh\<close> is \<^verbatim>\<open>np.linalg.eigh\<close>, which can fail;
  \<^item> \<open>minimize_scalar\<close> is \<^verbatim>\<open>scipy.optimize.minimize_scalar\<close> with
    \<^verbatim>\<open>method="bounded"\<close>: it takes the objective, the bounds and the option
    \<^verbatim>\<open>xatol\<close>, and returns the field \<^verbatim>\<open>x\<close> of its result;
  \<^item> \<open>mixture_logLR\<close> stands for the lines of \<^verbatim>\<open>kriging_rss\<close> between the grid and the
    result frame: \<^verbatim>\<open>stats.norm.logpdf\<close> on the grid, the fit of
    \<^verbatim>\<open>sklearn.mixture.GaussianMixture\<close> (whose initialisation is random) and the
    two mixture log-likelihoods. It takes \<open>z\<close>, \<open>condmean\<close>, \<open>condvar\<close> and \<open>a_grid\<close>
    and returns the column \<^verbatim>\<open>logLR\<close>, or fails;
  \<^item> \<open>chi2_logsf\<close> is \<^verbatim>\<open>stats.chi2.logsf(_, df=1)\<close>.
\<close>

record numlib =
  eigh :: "fl list list \<Rightarrow> error + eigens"
  minimize_scalar :: "(fl \<Rightarrow> fl) \<Rightarrow> fl \<times> fl \<Rightarrow> fl option \<Rightarrow> fl"
  mixture_logLR :: "fl list \<Rightarrow> fl list \<Rightarrow> fl list \<Rightarrow> fl list \<Rightarrow> error + fl list"
  chi2_logsf :: "fl \<Rightarrow> fl"

definition get_eigen :: "numlib \<Rightarrow> fl list list \<Rightarrow> error + eigens" where
  "get_eigen L ldmatrix = eigh L ldmatrix"

text \<open>
  The branch on \<^verbatim>\<open>eigvens is not None\<close> of both functions: the arrays of the caller's
  dictionary, or those of \<^verbatim>\<open>get_eigen(input_locus.ld.r)\<close>.
\<close>

definition spectrum_of :: "numlib \<Rightarrow> locus \<Rightarrow> eigens option \<Rightarrow> error + eigens" where
  "spectrum_of L input_locus eigvens =
     (case eigvens of
        Some e \<Rightarrow> Inr e
      | None \<Rightarrow> get_eigen L (ld_r input_locus))"

text \<open>The assignment \<^verbatim>\<open>eigvals[eigvals < r_tol] = 0\<close>, as the new contents of the array.\<close>

definition clamp :: "fl \<Rightarrow> fl list \<Rightarrow> fl list" where
  "clamp r_tol ev = map (\<lambda>x. if x < r_tol then 0 else x) ev"

text \<open>
  The two lines that both functions share:
  \<^verbatim>\<open>sigma2 = (n - 1) / (z**2 + n - 2); z = np.sqrt(sigma2) * z\<close>.
\<close>

definition transform_z :: "int \<Rightarrow> fl list \<Rightarrow> fl list" where
  "transform_z n z =
     map (\<lambda>x. fsqrt (Fin (of_int (n - 1)) / (x * x + Fin (of_int n) - Fin 2)) * x) z"

text \<open>
  The first lines of both functions: the z-scores \<^verbatim>\<open>BETA / SE\<close> of the copied and
  intersected locus, with not-a-number replaced by 0.
\<close>

definition z_scores :: "locus \<Rightarrow> fl list" where
  "z_scores l =
     (let input_locus = intersect_sumstat_ld (copy l);
          z = map (\<lambda>row. beta row / se row) (sumstats input_locus)
      in map (\<lambda>x. if isnan x then 0 else x) z)"

section \<open>The noise parameter: \<^verbatim>\<open>estimate_s_rss\<close>\<close>

text \<open>The objective of \<^verbatim>\<open>null-mle\<close>.\<close>

definition negloglikelihood :: "fl \<Rightarrow> fl list \<Rightarrow> fl list \<Rightarrow> fl" where
  "negloglikelihood s ztv d =
     (let denom = map (\<lambda>di. (1 - s) * di + s) d;
          term1 = Fin (1/2) * fsum (map flog denom);
          term2 = Fin (1/2) * fsum (map2 (\<lambda>x dn. (x / dn) * x) ztv denom)
      in term1 + term2)"

text \<open>
  \<^verbatim>\<open>stats.norm.logpdf(x, loc, scale)\<close> of scipy: the log-density of the normal
  distribution, not-a-number unless the scale is positive.
\<close>

definition norm_logpdf :: "fl \<Rightarrow> fl \<Rightarrow> fl \<Rightarrow> fl" where
  "norm_logpdf x loc scale =
     (if 0 < scale
      then (let y = (x - loc) / scale
            in - ((y * y) / Fin 2) - Fin (ln (sqrt (2 * pi))) - flog scale)
      else NaN)"

text \<open>
  The objective of \<^verbatim>\<open>null-pseudomle\<close>, in three steps: the matrix
  \<^verbatim>\<open>eigvecs @ (eigvecs.T / ((1 - s) * eigvals + s))\<close>, where numpy's broadcasting
  divides the entry in column \<open>j\<close> of \<^verbatim>\<open>eigvecs.T\<close> by the \<open>j\<close>-th denominator; the
  loop that fills \<^verbatim>\<open>postmean\<close> and \<^verbatim>\<open>postvar\<close>; and the sum of the log-densities.
\<close>

definition pseudo_precision :: "fl \<Rightarrow> fl list \<Rightarrow> fl list list \<Rightarrow> fl list list" where
  "pseudo_precision s ev V =
     matmul V (map (\<lambda>row. map2 (/) row (map (\<lambda>di. (1 - s) * di + s) ev)) (transpose V))"

definition postmean :: "fl list list \<Rightarrow> fl list \<Rightarrow> fl list" where
  "postmean precision z =
     map (\<lambda>i. - (1 / (precision ! i ! i)) * fdot (precision ! i) z + z ! i) [0..<length z]"

definition postvar :: "fl list list \<Rightarrow> fl list \<Rightarrow> fl list" where
  "postvar precision z = map (\<lambda>i. 1 / (precision ! i ! i)) [0..<length z]"

definition pseudolikelihood :: "fl \<Rightarrow> fl list \<Rightarrow> fl list \<Rightarrow> fl list list \<Rightarrow> fl" where
  "pseudolikelihood s z ev V =
     (let precision = pseudo_precision s ev V
      in - fsum (map (\<lambda>(x, m, v). norm_logpdf x m (fsqrt v))
                  (zip z (zip (postmean precision z) (postvar precision z)))))"

text \<open>
  The spec's words for the same objective, to compare with the source: the regularized
  precision matrix \<open>P = V diag(1/((1 - s) \<lambda> + s)) V\<^sup>T\<close>, the true leave-one-out
  conditional mean \<open>-(1/P[i,i]) \<Sum>\<^bsub>j \<noteq> i\<^esub> P[i,j] z[j]\<close>, the conditional variance
  \<open>1/P[i,i]\<close>, and the negative sum of the Gaussian log-densities of the \<open>z[i]\<close> under
  these means and variances.
\<close>

definition diag_matrix :: "fl list \<Rightarrow> fl list list" where
  "diag_matrix d = map (\<lambda>i. map (\<lambda>j. if i = j then d ! i else 0) [0..<length d]) [0..<length d]"

definition spec_precision :: "fl \<Rightarrow> fl list \<Rightarrow> fl list list \<Rightarrow> fl list list" where
  "spec_precision s ev V =
     matmul (matmul V (diag_matrix (map (\<lambda>di. 1 / ((1 - s) * di + s)) ev))) (transpose V)"

definition loo_mean :: "fl list list \<Rightarrow> fl list \<Rightarrow> nat \<Rightarrow> fl" where
  "loo_mean P z i =
     - (1 / (P ! i ! i)) * fsum (map (\<lambda>j. P ! i ! j * z ! j) (filter (\<lambda>j. j \<noteq> i) [0..<length z]))"

definition loo_var :: "fl list list \<Rightarrow> nat \<Rightarrow> fl" where
  "loo_var P i = 1 / (P ! i ! i)"

definition loo_objective :: "fl list list \<Rightarrow> fl list \<Rightarrow> fl" where
  "loo_objective P z =
     - fsum (map (\<lambda>i. norm_logpdf (z ! i) (loo_mean P z i) (fsqrt (loo_var P i))) [0..<length z])"

definition pseudolikelihood_loo :: "fl \<Rightarrow> fl list \<Rightarrow> fl list \<Rightarrow> fl list list \<Rightarrow> fl" where
  "pseudolikelihood_loo s z ev V = loo_objective (spec_precision s ev V) z"

text \<open>
  \<^verbatim>\<open>null-partialmle\<close>: \<^verbatim>\<open>colspace\<close> holds the indices of the positive eigenvalues, and
  \<^verbatim>\<open>znull\<close> the products of \<open>z\<close> with the other columns of \<^verbatim>\<open>eigvecs\<close>.
\<close>

definition partialmle :: "fl list \<Rightarrow> fl list \<Rightarrow> fl list list \<Rightarrow> fl" where
  "partialmle z ev V =
     (let colspace = filter (\<lambda>k. 0 < ev ! k) [0..<length ev]
      in if length colspace = length z then 0
         else (let nullcols = filter (\<lambda>k. k \<notin> set colspace) [0..<length z];
                   znull = map (\<lambda>k. fdot (map (\<lambda>row. row ! k) V) z) nullcols
               in fsum (map (\<lambda>x. x * x) znull) / Fin (real (length znull))))"

text \<open>
  \<^verbatim>\<open>estimate_s_rss\<close>. The result is the value returned or the exception raised, and
  with it the contents of the caller's dictionary \<^verbatim>\<open>eigvens\<close> after the call: the
  source writes the clamped eigenvalues into the caller's array, and does so before
  it tests the sample size.
\<close>

definition estimate_s_rss ::
  "numlib \<Rightarrow> locus \<Rightarrow> fl \<Rightarrow> string \<Rightarrow> eigens option \<Rightarrow> (error + fl) \<times> eigens option" where
  "estimate_s_rss L l r_tol method eigvens =
     (let z = z_scores l;
          n = sample_size (intersect_sumstat_ld (copy l))
      in case spectrum_of L (intersect_sumstat_ld (copy l)) eigvens of
           Inl err \<Rightarrow> (Inl err, eigvens)
         | Inr e \<Rightarrow>
             (let ev = clamp r_tol (eigvals e);
                  V = eigvecs e;
                  eigvens' = map_option (\<lambda>d. d\<lparr>eigvals := ev\<rparr>) eigvens
              in if n \<le> 1 then (Inl (ValueError ''n must be greater than 1''), eigvens')
                 else (let z = transform_z n z
                       in if method = ''null-mle''
                          then (Inr (minimize_scalar L
                                  (\<lambda>s. negloglikelihood s (matvec (transpose V) z) ev)
                                  (0, 1) (Some (Fin (sqrt (2 powr (- 52)))))), eigvens')
                          else if method = ''null-partialmle''
                          then (Inr (partialmle z ev V), eigvens')
                          else if method = ''null-pseudomle''
                          then (Inr (minimize_scalar L
                                  (\<lambda>s. pseudolikelihood s z ev V) (0, 1) None), eigvens')
                          else (Inl (ValueError ''The method is not implemented''), eigvens'))))"

section \<open>The Dentist-S statistic\<close>

text \<open>
  \<^verbatim>\<open>Series.idxmin\<close> of pandas: the label of the first smallest value, not-a-number
  entries skipped; it fails on an empty column and on a column of not-a-number entries
  only. The rows carry the default labels \<open>0, 1, ...\<close>, which the source also uses as
  positions.
\<close>

fun idxmin_from :: "nat \<Rightarrow> fl list \<Rightarrow> (nat \<times> fl) option \<Rightarrow> (nat \<times> fl) option" where
  "idxmin_from i [] best = best"
| "idxmin_from i (x # xs) best =
     idxmin_from (Suc i) xs
       (if isnan x then best
        else (case best of
                None \<Rightarrow> Some (i, x)
              | Some (k, m) \<Rightarrow> if x < m then Some (i, x) else Some (k, m)))"

definition idxmin :: "fl list \<Rightarrow> error + nat" where
  "idxmin xs =
     (case idxmin_from 0 xs None of
        None \<Rightarrow>
          Inl (ValueError (if xs = [] then ''attempt to get argmin of an empty sequence''
                           else ''Encountered all NA values''))
      | Some (k, m) \<Rightarrow> Inr k)"

text \<open>
  The column \<^verbatim>\<open>t_dentist_s\<close> of \<^verbatim>\<open>compute_dentist_s\<close>: the source up to the line that
  sets the lead variant's own entry to not-a-number. The arithmetic of \<^typ>\<open>fl\<close> is
  exact, so a value of this column is stated below only where rounding has no part in
  it: where the quotient is \<open>0 / 0\<close>.
\<close>

definition dentist_t :: "locus \<Rightarrow> error + fl list" where
  "dentist_t l =
     (let input_locus = intersect_sumstat_ld (copy l);
          df = sumstats input_locus;
          Z = map (\<lambda>row. beta row / se row) df
      in case idxmin (map pval df) of
           Inl e \<Rightarrow> Inl e
         | Inr lead_idx \<Rightarrow>
             (let lead_z = Z ! lead_idx;
                  r = ld_r input_locus ! lead_idx;
                  t = map2 (\<lambda>z rj. ((z - rj * lead_z) * (z - rj * lead_z)) / (1 - rj * rj)) Z r;
                  t = map (\<lambda>x. if x < 0 then PInf else x) t
              in Inr (t[lead_idx := NaN])))"

text \<open>
  \<^verbatim>\<open>compute_dentist_s\<close>: the frame with the columns \<^verbatim>\<open>SNPID\<close>, \<^verbatim>\<open>t_dentist_s\<close> and
  \<^verbatim>\<open>p_dentist_s\<close>, the last one by \<^verbatim>\<open>stats.chi2.logsf(_, df=1)\<close>.
\<close>

definition compute_dentist_s :: "numlib \<Rightarrow> locus \<Rightarrow> error + (string \<times> fl \<times> fl) list" where
  "compute_dentist_s L l =
     (case dentist_t l of
        Inl e \<Rightarrow> Inl e
      | Inr t \<Rightarrow>
          Inr (zip (map snpid (sumstats (intersect_sumstat_ld (copy l))))
                   (zip t (map (chi2_logsf L) t))))"


section \<open>The conditional predictor: \<^verbatim>\<open>kriging_rss\<close>\<close>

text \<open>
  The precision matrix \<^verbatim>\<open>eigvecs @ (eigvecs * dinv).T\<close>, with the infinite entries of
  \<^verbatim>\<open>dinv\<close> set to 0, and the loop that fills \<^verbatim>\<open>condmean\<close> and \<^verbatim>\<open>condvar\<close> from the
  slices \<^verbatim>\<open>[:i]\<close> and \<^verbatim>\<open>[i + 1:]\<close> of a row and of \<open>z\<close>.
\<close>

definition kriging_precision :: "fl \<Rightarrow> fl list \<Rightarrow> fl list list \<Rightarrow> fl list list" where
  "kriging_precision s ev V =
     (let dinv = map (\<lambda>di. 1 / ((1 - s) * di + s)) ev;
          dinv = map (\<lambda>x. if isinf x then 0 else x) dinv
      in matmul V (transpose (map (\<lambda>row. map2 (*) row dinv) V)))"

definition condmean :: "fl list list \<Rightarrow> fl list \<Rightarrow> fl list" where
  "condmean precision z =
     map (\<lambda>i. - (1 / (precision ! i ! i)) * fdot (take i (precision ! i)) (take i z)
              - (1 / (precision ! i ! i)) *
                fdot (drop (i + 1) (precision ! i)) (drop (i + 1) z))
       [0..<length z]"

definition condvar :: "fl list list \<Rightarrow> fl list \<Rightarrow> fl list" where
  "condvar precision z = map (\<lambda>i. 1 / (precision ! i ! i)) [0..<length z]"

definition z_std_diff :: "fl list \<Rightarrow> fl list \<Rightarrow> fl list \<Rightarrow> fl list" where
  "z_std_diff z cm cv = map (\<lambda>(x, m, v). (x - m) / fsqrt v) (zip z (zip cm cv))"

text \<open>
  \<^verbatim>\<open>np.max\<close> of a vector (not-a-number propagates; an empty vector is an error) and
  Python's \<^verbatim>\<open>int\<close> of a float.
\<close>

definition fmax2 :: "fl \<Rightarrow> fl \<Rightarrow> fl" where
  "fmax2 m x = (if isnan m \<or> isnan x then NaN else if m < x then x else m)"

fun np_max :: "fl list \<Rightarrow> error + fl" where
  "np_max [] =
     Inl (ValueError ''zero-size array to reduction operation maximum which has no identity'')"
| "np_max (x # xs) = Inr (foldl fmax2 x xs)"

fun py_int :: "fl \<Rightarrow> error + int" where
  "py_int (Fin a) = Inr (if 0 \<le> a then \<lfloor>a\<rfloor> else \<lceil>a\<rceil>)"
| "py_int NaN = Inl (ValueError ''cannot convert float NaN to integer'')"
| "py_int x = Inl OverflowError"

text \<open>
  The lines under \<^verbatim>\<open># Obtain grid\<close>: \<^verbatim>\<open>a_min\<close>, \<^verbatim>\<open>a_max\<close>, \<^verbatim>\<open>npoint\<close> and the
  grid \<^verbatim>\<open>1.05 ** np.arange(-npoint, 1) * a_max\<close>.
\<close>

definition grid_a_max :: "fl \<Rightarrow> fl" where
  "grid_a_max m = (if m < 1 then Fin 2 else Fin 2 * fsqrt m)"

definition obtain_grid :: "fl list \<Rightarrow> fl list \<Rightarrow> error + fl list" where
  "obtain_grid z zsd =
     (case np_max (map (\<lambda>x. x * x) zsd) of
        Inl err \<Rightarrow> Inl err
      | Inr m \<Rightarrow>
          (let a_min = Fin (8/10);
               a_max = grid_a_max m
           in case py_int (fceil (flog2 (a_max / a_min) / flog2 (Fin (105/100)))) of
                Inl err \<Rightarrow> Inl err
              | Inr npoint \<Rightarrow>
                  (let npoint = min npoint (int (length z) - 1)
                   in Inr (map (\<lambda>k. Fin ((105/100) powi k) * a_max) [- npoint..0]))))"

text \<open>
  The value of \<^verbatim>\<open>int(np.ceil(np.log2(a_max / a_min) / np.log2(1.05)))\<close> for a finite
  positive \<^verbatim>\<open>a_max\<close>, as a number: the \<^verbatim>\<open>npoint\<close> of the source before the minimum with
  the variant count less one.
\<close>

definition npoint_of :: "real \<Rightarrow> int" where
  "npoint_of a = \<lceil>log 2 (a / (8/10)) / log 2 (105/100)\<rceil>"

text \<open>The frame that \<^verbatim>\<open>kriging_rss\<close> returns, column by column.\<close>

record kriging_frame =
  kf_SNPID :: "string list"
  kf_z :: "fl list"
  kf_condmean :: "fl list"
  kf_condvar :: "fl list"
  kf_z_std_diff :: "fl list"
  kf_logLR :: "fl list"

text \<open>
  \<^verbatim>\<open>kriging_rss\<close>, with the contents of the caller's dictionary after the call as for
  \<^verbatim>\<open>estimate_s_rss\<close>. When \<open>s\<close> is absent the source calls \<^verbatim>\<open>estimate_s_rss\<close> with
  the defaults \<^verbatim>\<open>r_tol=1e-8\<close> and \<^verbatim>\<open>method="null-mle"\<close> on a new dictionary that shares
  the two arrays, so the array \<open>arr\<close> of the eigenvalues comes back clamped at
  \<open>1e-8\<close>. The source then clamps at \<open>r_tol\<close> through the reversed view
  \<^verbatim>\<open>eigvals[::-1]\<close>: the view is \<open>view\<close>, and the array under it is \<open>rev view\<close>.
\<close>

definition kriging_rss ::
  "numlib \<Rightarrow> locus \<Rightarrow> fl \<Rightarrow> fl option \<Rightarrow> eigens option
     \<Rightarrow> (error + kriging_frame) \<times> eigens option" where
  "kriging_rss L l r_tol s eigvens =
     (let input_locus = intersect_sumstat_ld (copy l);
          z = z_scores l;
          n = sample_size input_locus
      in case spectrum_of L input_locus eigvens of
           Inl err \<Rightarrow> (Inl err, eigvens)
         | Inr e \<Rightarrow>
             (let (sr, arr) =
                    (case s of
                       Some s' \<Rightarrow> (Inr s', eigvals e)
                     | None \<Rightarrow>
                         (case estimate_s_rss L l (Fin (1 / 10 ^ 8)) ''null-mle''
                                 (Some \<lparr>eigvals = eigvals e, eigvecs = eigvecs e\<rparr>) of
                            (r, d) \<Rightarrow>
                              (r, case d of Some e1 \<Rightarrow> eigvals e1 | None \<Rightarrow> eigvals e)))
              in case sr of
                   Inl err \<Rightarrow> (Inl err, map_option (\<lambda>d. d\<lparr>eigvals := arr\<rparr>) eigvens)
                 | Inr s' \<Rightarrow>
                     (let view = clamp r_tol (rev arr);
                          V = map rev (eigvecs e);
                          eigvens' = map_option (\<lambda>d. d\<lparr>eigvals := rev view\<rparr>) eigvens
                      in if n \<le> 1
                         then (Inl (ValueError ''n must be greater than 1''), eigvens')
                         else (let z = transform_z n z;
                                   precision = kriging_precision s' view V;
                                   cm = condmean precision z;
                                   cv = condvar precision z;
                                   zsd = z_std_diff z cm cv
                               in case obtain_grid z zsd of
                                    Inl err \<Rightarrow> (Inl err, eigvens')
                                  | Inr a_grid \<Rightarrow>
                                      (case mixture_logLR L z cm cv a_grid of
                                         Inl err \<Rightarrow> (Inl err, eigvens')
                                       | Inr lr \<Rightarrow>
                                           (Inr \<lparr>kf_SNPID = map snpid (sumstats input_locus),
                                                 kf_z = z, kf_condmean = cm, kf_condvar = cv,
                                                 kf_z_std_diff = zsd, kf_logLR = lr\<rparr>,
                                            eigvens'))))))"

section \<open>The orchestrator: \<^verbatim>\<open>locus_qc\<close>\<close>

text \<open>
  The tables that \<^verbatim>\<open>locus_qc\<close> only passes on (\<^verbatim>\<open>compare_maf\<close>, \<^verbatim>\<open>ld_4th_moment\<close>,
  \<^verbatim>\<open>ld_decay\<close>, \<^verbatim>\<open>cochran_q\<close>, \<^verbatim>\<open>snp_missingness\<close>) are joins and aggregations of
  pandas frames. Their builders are parameters, each returning a frame of a type \<open>'f\<close>
  or failing; a locus set is the list \<^verbatim>\<open>locus_set.loci\<close>.
\<close>

record 'f qc_tables =
  compare_maf :: "locus \<Rightarrow> error + 'f"
  ld_4th_moment :: "locus list \<Rightarrow> error + 'f"
  ld_decay :: "locus list \<Rightarrow> error + 'f"
  cochran_q :: "locus list \<Rightarrow> error + 'f"
  snp_missingness :: "locus list \<Rightarrow> error + 'f"

text \<open>
  The values of the dictionary \<^verbatim>\<open>qc_metrics\<close>. The three concatenated frames are kept
  as the lists of their per-locus parts, each with the columns the loop adds
  (\<^verbatim>\<open>lambda_s\<close> and \<^verbatim>\<open>cohort\<close>).
\<close>

datatype 'f frame =
  Expected_z "(kriging_frame \<times> fl \<times> string) list"
| Dentist_s "((string \<times> fl \<times> fl) list \<times> string) list"
| Compare_maf "('f \<times> string) list"
| Table 'f

definition cohort_label :: "locus \<Rightarrow> string" where
  "cohort_label l = popu l @ ''_'' @ cohort l"

text \<open>The body of the loop over the loci, and the loop.\<close>

definition qc_one ::
  "'f qc_tables \<Rightarrow> numlib \<Rightarrow> fl \<Rightarrow> string \<Rightarrow> locus
     \<Rightarrow> error + ((kriging_frame \<times> fl \<times> string) \<times> ((string \<times> fl \<times> fl) list \<times> string)
                  \<times> ('f \<times> string))" where
  "qc_one T L r_tol method l =
     (let lo = intersect_sumstat_ld l
      in case get_eigen L (ld_r lo) of
           Inl err \<Rightarrow> Inl err
         | Inr eigens \<Rightarrow>
             (case estimate_s_rss L l r_tol method (Some eigens) of
                (Inl err, d) \<Rightarrow> Inl err
              | (Inr lambda_s, d) \<Rightarrow>
                  (case kriging_rss L l r_tol (Some lambda_s)
                          (case d of Some e1 \<Rightarrow> Some e1 | None \<Rightarrow> Some eigens) of
                     (Inl err, d') \<Rightarrow> Inl err
                   | (Inr expected_z, d') \<Rightarrow>
                       (case compute_dentist_s L l of
                          Inl err \<Rightarrow> Inl err
                        | Inr dentist_s \<Rightarrow>
                            (case compare_maf T l of
                               Inl err \<Rightarrow> Inl err
                             | Inr compare_maf_res \<Rightarrow>
                                 Inr ((expected_z, lambda_s, cohort_label l),
                                      (dentist_s, cohort_label l),
                                      (compare_maf_res, cohort_label l)))))))"

fun qc_loop ::
  "'f qc_tables \<Rightarrow> numlib \<Rightarrow> fl \<Rightarrow> string \<Rightarrow> locus list
     \<Rightarrow> error + ((kriging_frame \<times> fl \<times> string) \<times> ((string \<times> fl \<times> fl) list \<times> string)
                  \<times> ('f \<times> string)) list" where
  "qc_loop T L r_tol method [] = Inr []"
| "qc_loop T L r_tol method (l # ls) =
     (case qc_one T L r_tol method l of
        Inl err \<Rightarrow> Inl err
      | Inr r \<Rightarrow>
          (case qc_loop T L r_tol method ls of
             Inl err \<Rightarrow> Inl err
           | Inr rs \<Rightarrow> Inr (r # rs)))"

text \<open>
  \<^verbatim>\<open>locus_qc\<close>: the dictionary in the order of its insertions, and the files written
  when \<^verbatim>\<open>out_dir\<close> is given. \<^verbatim>\<open>pd.concat\<close> raises on an empty list of frames.
\<close>

definition locus_qc ::
  "'f qc_tables \<Rightarrow> numlib \<Rightarrow> locus list \<Rightarrow> fl \<Rightarrow> string \<Rightarrow> string option
     \<Rightarrow> (error + (string \<times> 'f frame) list) \<times> string list" where
  "locus_qc T L loci r_tol method out_dir =
     (case qc_loop T L r_tol method loci of
        Inl err \<Rightarrow> (Inl err, [])
      | Inr rs \<Rightarrow>
          if rs = [] then (Inl (ValueError ''No objects to concatenate''), [])
          else
            (let qc_metrics =
                   [(''expected_z'', Expected_z (map fst rs)),
                    (''dentist_s'', Dentist_s (map (fst \<circ> snd) rs)),
                    (''compare_maf'', Compare_maf (map (snd \<circ> snd) rs))]
             in case ld_4th_moment T loci of
                  Inl err \<Rightarrow> (Inl err, [])
                | Inr t4 \<Rightarrow>
                    (case ld_decay T loci of
                       Inl err \<Rightarrow> (Inl err, [])
                     | Inr td \<Rightarrow>
                         (let qc_metrics =
                                qc_metrics @ [(''ld_4th_moment'', Table t4), (''ld_decay'', Table td)]
                          in case (if 1 < length loci
                                   then (case cochran_q T loci of
                                           Inl err \<Rightarrow> Inl err
                                         | Inr tq \<Rightarrow>
                                             (case snp_missingness T loci of
                                                Inl err \<Rightarrow> Inl err
                                              | Inr tm \<Rightarrow>
                                                  Inr (qc_metrics @
                                                       [(''cochran_q'', Table tq),
                                                        (''snp_missingness'', Table tm)])))
                                   else Inr qc_metrics) of
                               Inl err \<Rightarrow> (Inl err, [])
                             | Inr qc_metrics \<Rightarrow>
                                 (Inr qc_metrics,
                                  case out_dir of
                                    None \<Rightarrow> []
                                  | Some dir \<Rightarrow>
                                      map (\<lambda>(metric_name, metric_data).
                                             dir @ ''/'' @ metric_name @ ''.txt'')
                                        qc_metrics)))))"

section \<open>Concrete inputs\<close>

text \<open>
  A locus of two variants with the effect sizes \<open>b1\<close> and \<open>b2\<close>, standard errors 1,
  p-values 0.01 and 0.02, the correlation \<open>r\<close> between the two and the sample size
  \<open>n\<close>; and a spectrum with the eigenvalues \<open>d1\<close> and \<open>d2\<close> and the unit vectors as
  eigenvectors (the spectrum of the LD matrix when \<open>r = 0\<close> and \<open>d1 = d2 = 1\<close>). The
  locus \<open>diag_locus b1 b2 v n\<close> has two uncorrelated variants and the LD matrix with the
  diagonal \<open>(v, 1)\<close>, whose spectrum is \<open>unit_spectrum v 1\<close>. The spectrum of the LD
  matrix of \<open>pair_locus b1 b2 r n\<close> is \<open>corr_spectrum r\<close>: the eigenvalues \<open>1 - r\<close> and
  \<open>1 + r\<close> in the ascending order of \<^verbatim>\<open>eigh\<close> (for \<open>r \<ge> 0\<close>), and the normalised
  eigenvectors \<open>(1, -1)/\<surd>2\<close> and \<open>(1, 1)/\<surd>2\<close> as the columns of \<^verbatim>\<open>eigvecs\<close>.
\<close>

definition pair_locus :: "real \<Rightarrow> real \<Rightarrow> real \<Rightarrow> int \<Rightarrow> locus" where
  "pair_locus b1 b2 r n =
     \<lparr>sumstats = [\<lparr>snpid = ''rs1'', beta = Fin b1, se = Fin 1, pval = Fin (1/100)\<rparr>,
                  \<lparr>snpid = ''rs2'', beta = Fin b2, se = Fin 1, pval = Fin (1/50)\<rparr>],
      ld_r = [[Fin 1, Fin r], [Fin r, Fin 1]],
      sample_size = n, popu = ''EUR'', cohort = ''c1''\<rparr>"

definition diag_locus :: "real \<Rightarrow> real \<Rightarrow> real \<Rightarrow> int \<Rightarrow> locus" where
  "diag_locus b1 b2 v n =
     \<lparr>sumstats = [\<lparr>snpid = ''rs1'', beta = Fin b1, se = Fin 1, pval = Fin (1/100)\<rparr>,
                  \<lparr>snpid = ''rs2'', beta = Fin b2, se = Fin 1, pval = Fin (1/50)\<rparr>],
      ld_r = [[Fin v, Fin 0], [Fin 0, Fin 1]],
      sample_size = n, popu = ''EUR'', cohort = ''c1''\<rparr>"

definition corr_spectrum :: "real \<Rightarrow> eigens" where
  "corr_spectrum r =
     \<lparr>eigvals = [Fin (1 - r), Fin (1 + r)],
      eigvecs = [[Fin (sqrt 2 / 2), Fin (sqrt 2 / 2)], [Fin (- (sqrt 2 / 2)), Fin (sqrt 2 / 2)]]\<rparr>"

definition unit_spectrum :: "real \<Rightarrow> real \<Rightarrow> eigens" where
  "unit_spectrum d1 d2 = \<lparr>eigvals = [Fin d1, Fin d2], eigvecs = [[Fin 1, Fin 0], [Fin 0, Fin 1]]\<rparr>"

text \<open>
  A library and table builders for the closed statements below. They stand for no real
  routines: the results stated with them either do not consult them, or only need them
  to return something. \<open>eigh\<close> returns unit eigenvalues and the matrix itself, the
  spectrum of an identity matrix; the minimiser returns 0; the mixture step returns a
  column of zeros. Each table builder returns, as its table, its own name and the
  cohort labels of the loci it was given.
\<close>

definition stub_lib :: numlib where
  "stub_lib =
     \<lparr>eigh = (\<lambda>R. Inr \<lparr>eigvals = map (\<lambda>row. Fin 1) R, eigvecs = R\<rparr>),
      minimize_scalar = (\<lambda>f bounds xatol. Fin 0),
      mixture_logLR = (\<lambda>z cm cv a_grid. Inr (map (\<lambda>x. Fin 0) z)),
      chi2_logsf = (\<lambda>t. t)\<rparr>"



definition stub_tables :: "string list qc_tables" where
  "stub_tables =
     \<lparr>compare_maf = (\<lambda>l. Inr [''compare_maf'', cohort_label l]),
      ld_4th_moment = (\<lambda>ls. Inr (''ld_4th_moment'' # map cohort_label ls)),
      ld_decay = (\<lambda>ls. Inr (''ld_decay'' # map cohort_label ls)),
      cochran_q = (\<lambda>ls. Inr (''cochran_q'' # map cohort_label ls)),
      snp_missingness = (\<lambda>ls. Inr (''snp_missingness'' # map cohort_label ls))\<rparr>"

section \<open>Basic facts\<close>

lemmas fl_defs = zero_fl_def one_fl_def minus_fl_def

lemmas locus_defs = copy_def intersect_sumstat_ld_def

lemma spectrum_of_Some: "spectrum_of L l (Some e) = Inr e"
  by (simp add: spectrum_of_def)

lemma length_z_scores: "length (z_scores l) = length (sumstats l)"
  by (simp add: z_scores_def locus_defs)

lemma length_transform_z: "length (transform_z n z) = length z"
  by (simp add: transform_z_def)

lemma length_clamp: "length (clamp r_tol ev) = length ev"
  by (simp add: clamp_def)

lemma filter_upt_all: "(\<forall>k<n. Q k) \<Longrightarrow> filter Q [0..<n] = [0..<n]"
  by (simp add: filter_id_conv)

lemma filter_upt_none: "(\<forall>k<n. \<not> Q k) \<Longrightarrow> filter Q [0..<n] = []"
  by (simp add: filter_empty_conv)

lemma pair_locus_sel:
  "sample_size (pair_locus b1 b2 r n) = n"
  "length (sumstats (pair_locus b1 b2 r n)) = 2"
  "map snpid (sumstats (pair_locus b1 b2 r n)) = [''rs1'', ''rs2'']"
  "map pval (sumstats (pair_locus b1 b2 r n)) = [Fin (1/100), Fin (1/50)]"
  "ld_r (pair_locus b1 b2 r n) = [[Fin 1, Fin r], [Fin r, Fin 1]]"
  by (simp_all add: pair_locus_def)

lemma z_scores_pair: "z_scores (pair_locus b1 b2 r n) = [Fin b1, Fin b2]"
  by (simp add: z_scores_def pair_locus_def locus_defs)

lemma transform_z_unit: "transform_z 2 [Fin 1, Fin 1] = [Fin 1, Fin 1]"
  by (simp add: transform_z_def fl_defs)

section \<open>The sample size\<close>

lemma estimate_s_rss_small_n:
  assumes "sample_size l \<le> 1"
  shows "estimate_s_rss L l r m (Some e) =
      (Inl (ValueError ''n must be greater than 1''), Some (e\<lparr>eigvals := clamp r (eigvals e)\<rparr>))"
  using assms by (simp add: estimate_s_rss_def locus_defs Let_def spectrum_of_Some)

text \<open>
  C7. A locus whose sample size is at most 1 makes both \<^verbatim>\<open>estimate_s_rss\<close> and
  \<^verbatim>\<open>kriging_rss\<close> fail, whatever the other arguments are: with a spectrum at hand
  (supplied, or computed by \<open>eigh\<close>) the exception is the \<open>ValueError\<close> of the
  source, "n must be greater than 1"; when \<open>eigh\<close> itself fails on the LD matrix, its
  error is raised first. No result is produced in either case.
\<close>

theorem invalid_sample_size_raises:
  assumes "sample_size l \<le> 1"
  shows "fst (estimate_s_rss L l r_tol method eigvens) =
           (case spectrum_of L l eigvens of
              Inl err \<Rightarrow> Inl err
            | Inr e \<Rightarrow> Inl (ValueError ''n must be greater than 1''))
       \<and> fst (kriging_rss L l r_tol s eigvens) =
           (case spectrum_of L l eigvens of
              Inl err \<Rightarrow> Inl err
            | Inr e \<Rightarrow> Inl (ValueError ''n must be greater than 1''))"
proof -
  have "fst (kriging_rss L l r_tol s eigvens) =
           (case spectrum_of L l eigvens of
              Inl err \<Rightarrow> Inl err
            | Inr e \<Rightarrow> Inl (ValueError ''n must be greater than 1''))"
    using assms estimate_s_rss_small_n [OF assms]
    by (auto simp: kriging_rss_def locus_defs Let_def split: sum.splits option.splits prod.splits)
  moreover have "fst (estimate_s_rss L l r_tol method eigvens) =
           (case spectrum_of L l eigvens of
              Inl err \<Rightarrow> Inl err
            | Inr e \<Rightarrow> Inl (ValueError ''n must be greater than 1''))"
    using assms by (simp add: estimate_s_rss_def locus_defs Let_def split: sum.splits option.splits)
  ultimately show ?thesis by simp
qed

theorem invalid_sample_size_raises_witness:
  "\<forall>L. sample_size (pair_locus 2 2 0 1) \<le> 1
     \<and> fst (estimate_s_rss L (pair_locus 2 2 0 1) (Fin (1 / 10 ^ 8)) ''null-mle''
              (Some (unit_spectrum 1 1)))
         = Inl (ValueError ''n must be greater than 1'')
     \<and> fst (kriging_rss L (pair_locus 2 2 0 1) (Fin (1 / 10 ^ 8)) None
              (Some (unit_spectrum 1 1)))
         = Inl (ValueError ''n must be greater than 1'')"
proof
  fix L
  have n: "sample_size (pair_locus 2 2 0 1) \<le> 1"
    by (simp add: pair_locus_def)
  show "sample_size (pair_locus 2 2 0 1) \<le> 1
     \<and> fst (estimate_s_rss L (pair_locus 2 2 0 1) (Fin (1 / 10 ^ 8)) ''null-mle''
              (Some (unit_spectrum 1 1)))
         = Inl (ValueError ''n must be greater than 1'')
     \<and> fst (kriging_rss L (pair_locus 2 2 0 1) (Fin (1 / 10 ^ 8)) None
              (Some (unit_spectrum 1 1)))
         = Inl (ValueError ''n must be greater than 1'')"
    using n
      invalid_sample_size_raises [OF n, of L "Fin (1 / 10 ^ 8)" "''null-mle''"
        "Some (unit_spectrum 1 1)" None]
    by (simp add: spectrum_of_Some)
qed

section \<open>\<^verbatim>\<open>null-partialmle\<close>\<close>

lemma partialmle_full_rank:
  assumes "\<forall>x\<in>set ev. 0 < x" and "length ev = length z"
  shows "partialmle z ev V = 0"
proof -
  have "filter (\<lambda>k. 0 < ev ! k) [0..<length ev] = [0..<length ev]"
    using assms(1) by (intro filter_upt_all) simp
  then show ?thesis
    using assms(2) by (simp add: partialmle_def)
qed

lemma clamp_all_zero:
  assumes "\<forall>x\<in>set ev. x < r_tol"
  shows "clamp r_tol ev = replicate (length ev) 0"
  using assms by (induction ev) (simp_all add: clamp_def)

lemma partialmle_null_spectrum:
  assumes "\<forall>x\<in>set ev. x = 0" and "z \<noteq> []"
  shows "partialmle z ev V =
     fsum (map (\<lambda>x. x * x) (map (\<lambda>k. fdot (map (\<lambda>row. row ! k) V) z) [0..<length z]))
       / Fin (real (length z))"
proof -
  have "filter (\<lambda>k. 0 < ev ! k) [0..<length ev] = []"
    using assms(1) by (intro filter_upt_none) (auto simp: fl_defs dest!: nth_mem)
  then show ?thesis
    using assms(2) by (simp add: partialmle_def)
qed

text \<open>
  C3. For a locus with a valid sample size (more than 1) and as many eigenvalues as
  variants, all of them positive after the clamp at \<open>r_tol\<close>, \<^verbatim>\<open>estimate_s_rss\<close> with
  the method \<^verbatim>\<open>null-partialmle\<close> returns exactly 0, for a supplied spectrum and for one
  computed by \<open>eigh\<close> alike.
\<close>

theorem partialmle_full_rank_returns_zero:
  assumes "1 < sample_size l"
    and "spectrum_of L l eigvens = Inr e"
    and "length (eigvals e) = length (sumstats l)"
    and "\<forall>x\<in>set (clamp r_tol (eigvals e)). 0 < x"
  shows "fst (estimate_s_rss L l r_tol ''null-partialmle'' eigvens) = Inr (Fin 0)"
proof -
  have "partialmle (transform_z (sample_size l) (z_scores l)) (clamp r_tol (eigvals e)) (eigvecs e) = 0"
    using assms(3,4)
    by (intro partialmle_full_rank) (simp_all add: length_clamp length_transform_z length_z_scores)
  then show ?thesis
    using assms(1,2) by (simp add: estimate_s_rss_def locus_defs Let_def fl_defs)
qed

theorem partialmle_full_rank_returns_zero_witness:
  "\<forall>L. 1 < sample_size (pair_locus 2 2 0 100)
     \<and> spectrum_of L (pair_locus 2 2 0 100) (Some (unit_spectrum 1 1)) = Inr (unit_spectrum 1 1)
     \<and> length (eigvals (unit_spectrum 1 1)) = length (sumstats (pair_locus 2 2 0 100))
     \<and> clamp (Fin (1 / 10 ^ 8)) (eigvals (unit_spectrum 1 1)) = [Fin 1, Fin 1]
     \<and> fst (estimate_s_rss L (pair_locus 2 2 0 100) (Fin (1 / 10 ^ 8)) ''null-partialmle''
              (Some (unit_spectrum 1 1))) = Inr (Fin 0)"
proof
  fix L
  have n: "1 < sample_size (pair_locus 2 2 0 100)"
    by (simp add: pair_locus_def)
  have sp: "spectrum_of L (pair_locus 2 2 0 100) (Some (unit_spectrum 1 1)) = Inr (unit_spectrum 1 1)"
    by (simp add: spectrum_of_Some)
  have len: "length (eigvals (unit_spectrum 1 1)) = length (sumstats (pair_locus 2 2 0 100))"
    by (simp add: unit_spectrum_def pair_locus_def)
  have cl: "clamp (Fin (1 / 10 ^ 8)) (eigvals (unit_spectrum 1 1)) = [Fin 1, Fin 1]"
    by (simp add: clamp_def unit_spectrum_def)
  have pos: "\<forall>x\<in>set (clamp (Fin (1 / 10 ^ 8)) (eigvals (unit_spectrum 1 1))). 0 < x"
    unfolding cl by (simp add: fl_defs)
  show "1 < sample_size (pair_locus 2 2 0 100)
     \<and> spectrum_of L (pair_locus 2 2 0 100) (Some (unit_spectrum 1 1)) = Inr (unit_spectrum 1 1)
     \<and> length (eigvals (unit_spectrum 1 1)) = length (sumstats (pair_locus 2 2 0 100))
     \<and> clamp (Fin (1 / 10 ^ 8)) (eigvals (unit_spectrum 1 1)) = [Fin 1, Fin 1]
     \<and> fst (estimate_s_rss L (pair_locus 2 2 0 100) (Fin (1 / 10 ^ 8)) ''null-partialmle''
              (Some (unit_spectrum 1 1))) = Inr (Fin 0)"
    using n sp len cl partialmle_full_rank_returns_zero [OF n sp len pos]
    by simp
qed

text \<open>
  C4, as the code has it. For a locus with a valid sample size and at least one
  variant whose eigenvalues are all below \<open>r_tol\<close>, \<^verbatim>\<open>estimate_s_rss\<close> with the method
  \<^verbatim>\<open>null-partialmle\<close> raises nothing and returns the mean of the squares of the
  products of the transformed \<open>z\<close> with all the columns of \<^verbatim>\<open>eigvecs\<close>: a value that is
  0 only when these products vanish.
\<close>

theorem partialmle_null_spectrum_returns_mean_square:
  assumes "1 < sample_size l"
    and "spectrum_of L l eigvens = Inr e"
    and "sumstats l \<noteq> []"
    and "\<forall>x\<in>set (eigvals e). x < r_tol"
  shows "fst (estimate_s_rss L l r_tol ''null-partialmle'' eigvens) =
     Inr (fsum (map (\<lambda>x. x * x)
            (map (\<lambda>k. fdot (map (\<lambda>row. row ! k) (eigvecs e))
                         (transform_z (sample_size l) (z_scores l)))
               [0..<length (sumstats l)]))
          / Fin (real (length (sumstats l))))"
proof -
  let ?z = "transform_z (sample_size l) (z_scores l)"
  have z: "?z \<noteq> []" "length ?z = length (sumstats l)"
    using assms(3) by (simp_all add: transform_z_def z_scores_def locus_defs)
  have "\<forall>x\<in>set (clamp r_tol (eigvals e)). x = 0"
    using clamp_all_zero [OF assms(4)] by simp
  from partialmle_null_spectrum [OF this z(1), of "eigvecs e"] z(2)
  show ?thesis
    using assms(1,2) by (simp add: estimate_s_rss_def locus_defs Let_def)
qed

theorem partialmle_null_spectrum_returns_mean_square_witness:
  "\<forall>L. 1 < sample_size (pair_locus 1 1 0 2)
     \<and> spectrum_of L (pair_locus 1 1 0 2) (Some (unit_spectrum 1 1)) = Inr (unit_spectrum 1 1)
     \<and> sumstats (pair_locus 1 1 0 2) \<noteq> []
     \<and> clamp (Fin 2) (eigvals (unit_spectrum 1 1)) = [Fin 0, Fin 0]
     \<and> fst (estimate_s_rss L (pair_locus 1 1 0 2) (Fin 2) ''null-partialmle''
              (Some (unit_spectrum 1 1))) = Inr (Fin 1)"
proof
  fix L
  have n: "1 < sample_size (pair_locus 1 1 0 2)"
    by (simp add: pair_locus_def)
  have sp: "spectrum_of L (pair_locus 1 1 0 2) (Some (unit_spectrum 1 1)) = Inr (unit_spectrum 1 1)"
    by (simp add: spectrum_of_Some)
  have ne: "sumstats (pair_locus 1 1 0 2) \<noteq> []"
    by (simp add: pair_locus_def)
  have below: "\<forall>x\<in>set (eigvals (unit_spectrum 1 1)). x < Fin 2"
    by (simp add: unit_spectrum_def)
  have cl: "clamp (Fin 2) (eigvals (unit_spectrum 1 1)) = [Fin 0, Fin 0]"
    by (simp add: clamp_def unit_spectrum_def fl_defs)
  have val: "fsum (map (\<lambda>x. x * x)
            (map (\<lambda>k. fdot (map (\<lambda>row. row ! k) (eigvecs (unit_spectrum 1 1)))
                         (transform_z (sample_size (pair_locus 1 1 0 2))
                            (z_scores (pair_locus 1 1 0 2))))
               [0..<length (sumstats (pair_locus 1 1 0 2))]))
          / Fin (real (length (sumstats (pair_locus 1 1 0 2)))) = Fin 1"
    by (simp add: z_scores_pair transform_z_unit pair_locus_sel unit_spectrum_def
        fdot_def fsum_def fl_defs upt_rec numeral_2_eq_2)
  show "1 < sample_size (pair_locus 1 1 0 2)
     \<and> spectrum_of L (pair_locus 1 1 0 2) (Some (unit_spectrum 1 1)) = Inr (unit_spectrum 1 1)
     \<and> sumstats (pair_locus 1 1 0 2) \<noteq> []
     \<and> clamp (Fin 2) (eigvals (unit_spectrum 1 1)) = [Fin 0, Fin 0]
     \<and> fst (estimate_s_rss L (pair_locus 1 1 0 2) (Fin 2) ''null-partialmle''
              (Some (unit_spectrum 1 1))) = Inr (Fin 1)"
    using n sp ne cl partialmle_null_spectrum_returns_mean_square [OF n sp ne below]
    unfolding val by simp
qed

lemma partialmle_unit_null:
  "partialmle [Fin 1, Fin 1] [Fin 0, Fin 0] [[Fin 1, Fin 0], [Fin 0, Fin 1]] = Fin 1"
  by (simp add: partialmle_def fdot_def fsum_def fl_defs numeral_2_eq_2)

text \<open>
  The claim C4 as the spec states it (the result is 0) fails on the locus of two
  uncorrelated variants with z-scores 1 and sample size 2, taken with \<open>r_tol = 2\<close>:
  both eigenvalues are clamped to 0 and the result is 1.
\<close>

theorem partialmle_null_spectrum_counterexample:
  "clamp (Fin 2) (eigvals (unit_spectrum 1 1)) = [Fin 0, Fin 0]
   \<and> estimate_s_rss stub_lib (pair_locus 1 1 0 2) (Fin 2) ''null-partialmle''
         (Some (unit_spectrum 1 1))
       = (Inr (Fin 1), Some \<lparr>eigvals = [Fin 0, Fin 0], eigvecs = [[Fin 1, Fin 0], [Fin 0, Fin 1]]\<rparr>)
   \<and> Fin 1 \<noteq> Fin 0"
proof -
  have cl: "clamp (Fin 2) (eigvals (unit_spectrum 1 1)) = [Fin 0, Fin 0]"
    by (simp add: clamp_def unit_spectrum_def fl_defs)
  have "estimate_s_rss stub_lib (pair_locus 1 1 0 2) (Fin 2) ''null-partialmle''
         (Some (unit_spectrum 1 1))
       = (Inr (partialmle [Fin 1, Fin 1] [Fin 0, Fin 0] [[Fin 1, Fin 0], [Fin 0, Fin 1]]),
          Some \<lparr>eigvals = [Fin 0, Fin 0], eigvecs = [[Fin 1, Fin 0], [Fin 0, Fin 1]]\<rparr>)"
    unfolding estimate_s_rss_def spectrum_of_Some locus_defs z_scores_pair pair_locus_sel Let_def cl
    by (simp add: transform_z_unit unit_spectrum_def clamp_def fl_defs)
  then show ?thesis
    using cl by (simp add: partialmle_unit_null)
qed

section \<open>Dentist-S on the line \<open>z\<^sub>j = r z\<^sub>l\<^sub>e\<^sub>a\<^sub>d\<close>\<close>

lemma idxmin_from_range:
  "idxmin_from i xs best = Some (k, m) \<Longrightarrow> best = Some (k, m) \<or> (i \<le> k \<and> k < i + length xs)"
proof (induction xs arbitrary: i best)
  case Nil
  then show ?case by simp
next
  case (Cons x xs)
  from Cons.prems have
    "idxmin_from (Suc i) xs
       (if isnan x then best
        else (case best of None \<Rightarrow> Some (i, x)
              | Some (k', m') \<Rightarrow> if x < m' then Some (i, x) else Some (k', m'))) = Some (k, m)"
    by simp
  from Cons.IH [OF this] show ?case
    by (auto split: if_splits option.splits)
qed

lemma idxmin_lt: "idxmin xs = Inr k \<Longrightarrow> k < length xs"
  using idxmin_from_range [of 0 xs None k]
  by (auto simp: idxmin_def split: option.splits)

lemma fl_minus_self_cases: "x - Fin 1 * x = Fin 0 \<or> x - Fin 1 * x = NaN" for x :: fl
  by (cases x) (simp_all add: fl_defs)

lemma fl_zero_over_zero:
  assumes "d = Fin 0 \<or> d = NaN"
  shows "(d * d) / (1 - Fin 1 * Fin 1) = NaN"
  using assms by (auto simp: fl_defs)

lemma dentist_t_perfect_ld:
  assumes lead: "idxmin (map pval (sumstats l)) = Inr k"
    and j: "j < length (sumstats l)"
    and row: "length (ld_r l ! k) = length (sumstats l)"
    and r: "ld_r l ! k ! j = Fin 1"
    and z: "beta (sumstats l ! j) / se (sumstats l ! j) = beta (sumstats l ! k) / se (sumstats l ! k)"
  shows "\<exists>t. dentist_t l = Inr t \<and> length t = length (sumstats l) \<and> t ! j = NaN"
proof -
  have k: "k < length (sumstats l)"
    using idxmin_lt [OF lead] by simp
  let ?z = "beta (sumstats l ! k) / se (sumstats l ! k)"
  have q: "((?z - Fin 1 * ?z) * (?z - Fin 1 * ?z)) / (1 - Fin 1 * Fin 1) = NaN"
    by (rule fl_zero_over_zero) (rule fl_minus_self_cases)
  show ?thesis
    using j k row r z q
    by (simp add: dentist_t_def locus_defs lead Let_def nth_list_update)
qed

lemma idxmin_pair: "idxmin (map pval (sumstats (pair_locus b1 b2 r n))) = Inr 0"
  by (simp add: pair_locus_sel idxmin_def)

text \<open>
  C6, as the code has it. Let \<open>j\<close> be a variant whose correlation with the lead variant
  \<open>k\<close> is 1 and whose z-score is that of the lead variant. Then \<^verbatim>\<open>compute_dentist_s\<close>
  returns a frame whose statistic \<^verbatim>\<open>t_dentist_s\<close> for \<open>j\<close> is not-a-number, not 0: the
  numerator \<open>(z\<^sub>j - 1 z\<^sub>k)\<^sup>2\<close> and the denominator \<open>1 - 1\<^sup>2\<close> are both 0, and the
  source has no guard for \<open>0 / 0\<close>.
\<close>

theorem dentist_s_perfect_ld_is_nan:
  assumes "idxmin (map pval (sumstats l)) = Inr k"
    and "j < length (sumstats l)"
    and "length (ld_r l ! k) = length (sumstats l)"
    and "ld_r l ! k ! j = Fin 1"
    and "beta (sumstats l ! j) / se (sumstats l ! j) = beta (sumstats l ! k) / se (sumstats l ! k)"
  shows "\<exists>frame. compute_dentist_s L l = Inr frame \<and> length frame = length (sumstats l) \<and>
           fst (frame ! j) = snpid (sumstats l ! j) \<and> fst (snd (frame ! j)) = NaN"
proof -
  from dentist_t_perfect_ld [OF assms]
  obtain t where t: "dentist_t l = Inr t" "length t = length (sumstats l)" "t ! j = NaN"
    by blast
  then show ?thesis
    using assms(2) by (simp add: compute_dentist_s_def locus_defs)
qed

theorem dentist_s_perfect_ld_is_nan_witness:
  "\<forall>L. idxmin (map pval (sumstats (pair_locus 3 3 1 100))) = Inr 0
     \<and> length (ld_r (pair_locus 3 3 1 100) ! 0) = length (sumstats (pair_locus 3 3 1 100))
     \<and> ld_r (pair_locus 3 3 1 100) ! 0 ! 1 = Fin 1
     \<and> z_scores (pair_locus 3 3 1 100) = [Fin 3, Fin 3]
     \<and> (\<exists>frame. compute_dentist_s L (pair_locus 3 3 1 100) = Inr frame \<and> length frame = 2
           \<and> fst (frame ! 1) = ''rs2'' \<and> fst (snd (frame ! 1)) = NaN)"
proof
  fix L
  let ?l = "pair_locus 3 3 1 100"
  have lead: "idxmin (map pval (sumstats ?l)) = Inr 0"
    by (rule idxmin_pair)
  have j: "1 < length (sumstats ?l)"
    by (simp add: pair_locus_sel)
  have row: "length (ld_r ?l ! 0) = length (sumstats ?l)"
    by (simp add: pair_locus_sel)
  have r: "ld_r ?l ! 0 ! 1 = Fin 1"
    by (simp add: pair_locus_sel)
  have z: "beta (sumstats ?l ! 1) / se (sumstats ?l ! 1) = beta (sumstats ?l ! 0) / se (sumstats ?l ! 0)"
    by (simp add: pair_locus_def)
  have s: "snpid (sumstats ?l ! Suc 0) = ''rs2''"
    by (simp add: pair_locus_def)
  show "idxmin (map pval (sumstats ?l)) = Inr 0
     \<and> length (ld_r ?l ! 0) = length (sumstats ?l)
     \<and> ld_r ?l ! 0 ! 1 = Fin 1
     \<and> z_scores ?l = [Fin 3, Fin 3]
     \<and> (\<exists>frame. compute_dentist_s L ?l = Inr frame \<and> length frame = 2
           \<and> fst (frame ! 1) = ''rs2'' \<and> fst (snd (frame ! 1)) = NaN)"
    using lead row r dentist_s_perfect_ld_is_nan [OF lead j row r z, of L]
    by (simp add: z_scores_pair pair_locus_sel s)
qed

text \<open>
  The claim C6 as the spec states it (the statistic is 0) fails on the locus of two
  perfectly correlated variants with the same z-score 2: the lead variant is the
  first one, and the statistic of the second one is not-a-number.
\<close>

theorem dentist_s_perfect_ld_counterexample:
  "idxmin (map pval (sumstats (pair_locus 2 2 1 100))) = Inr 0
   \<and> ld_r (pair_locus 2 2 1 100) ! 0 ! 1 = Fin 1
   \<and> z_scores (pair_locus 2 2 1 100) = [Fin 2, Fin 2]
   \<and> compute_dentist_s stub_lib (pair_locus 2 2 1 100)
       = Inr [(''rs1'', NaN, NaN), (''rs2'', NaN, NaN)]
   \<and> NaN \<noteq> Fin 0"
proof -
  have "dentist_t (pair_locus 2 2 1 100) = Inr [NaN, NaN]"
    by (simp add: dentist_t_def locus_defs idxmin_pair Let_def)
       (simp add: pair_locus_def fl_defs)
  then show ?thesis
    using idxmin_pair [of 2 2 1 100]
    by (simp add: compute_dentist_s_def locus_defs z_scores_pair pair_locus_sel stub_lib_def)
qed

section \<open>The clamp and the caller's array\<close>

lemma rev_clamp: "rev (clamp r (rev ev)) = clamp r ev"
  by (simp add: clamp_def rev_map)

lemma clamp_rev: "clamp r (rev ev) = rev (clamp r ev)"
  by (simp add: clamp_def rev_map)

lemma clamp_idem: "clamp r (clamp r ev) = clamp r ev"
  by (induction ev) (simp_all add: clamp_def)

lemma clamp_nth_below:
  "k < length ev \<Longrightarrow> ev ! k < r \<Longrightarrow> clamp r ev ! k = 0"
  by (simp add: clamp_def)

lemma clamp_clamp_nth_below:
  assumes "k < length ev" and "ev ! k < r"
  shows "clamp r (clamp r0 ev) ! k = 0"
proof (cases "ev ! k < r0")
  case True
  then have "clamp r0 ev ! k = 0"
    using assms(1) by (simp add: clamp_def)
  then show ?thesis
    using assms(1) by (simp add: clamp_def)
next
  case False
  then have "clamp r0 ev ! k = ev ! k"
    using assms(1) by (simp add: clamp_def)
  then show ?thesis
    using assms by (simp add: clamp_def)
qed

lemma kriging_rss_given:
  "kriging_rss L l r_tol (Some s') (Some e) =
     (if sample_size l \<le> 1
      then (Inl (ValueError ''n must be greater than 1''),
            Some (e\<lparr>eigvals := clamp r_tol (eigvals e)\<rparr>))
      else (let z = transform_z (sample_size l) (z_scores l);
                precision = kriging_precision s' (clamp r_tol (rev (eigvals e))) (map rev (eigvecs e));
                cm = condmean precision z;
                cv = condvar precision z;
                zsd = z_std_diff z cm cv
            in case obtain_grid z zsd of
                 Inl err \<Rightarrow> (Inl err, Some (e\<lparr>eigvals := clamp r_tol (eigvals e)\<rparr>))
               | Inr a_grid \<Rightarrow>
                   (case mixture_logLR L z cm cv a_grid of
                      Inl err \<Rightarrow> (Inl err, Some (e\<lparr>eigvals := clamp r_tol (eigvals e)\<rparr>))
                    | Inr lr \<Rightarrow>
                        (Inr \<lparr>kf_SNPID = map snpid (sumstats l),
                              kf_z = z, kf_condmean = cm, kf_condvar = cv,
                              kf_z_std_diff = zsd, kf_logLR = lr\<rparr>,
                         Some (e\<lparr>eigvals := clamp r_tol (eigvals e)\<rparr>)))))"
  by (simp add: kriging_rss_def locus_defs spectrum_of_Some Let_def rev_clamp
      split: sum.splits)

lemma estimate_s_rss_snd:
  "snd (estimate_s_rss L l r m (Some e)) = Some (e\<lparr>eigvals := clamp r (eigvals e)\<rparr>)"
  by (simp add: estimate_s_rss_def locus_defs spectrum_of_Some Let_def)

lemma estimate_s_rss_null_mle:
  "1 < sample_size l \<Longrightarrow> \<exists>v. fst (estimate_s_rss L l r ''null-mle'' (Some e)) = Inr v"
  by (simp add: estimate_s_rss_def locus_defs spectrum_of_Some Let_def)

lemma kriging_rss_snd_given:
  "snd (kriging_rss L l r_tol (Some s') (Some e)) = Some (e\<lparr>eigvals := clamp r_tol (eigvals e)\<rparr>)"
  by (simp add: kriging_rss_given Let_def split: sum.splits)

lemma kriging_rss_snd_estimated:
  assumes "1 < sample_size l"
  shows "snd (kriging_rss L l r_tol None (Some e)) =
           Some (e\<lparr>eigvals := clamp r_tol (clamp (Fin (1 / 10 ^ 8)) (eigvals e))\<rparr>)"
proof -
  obtain v where v: "fst (estimate_s_rss L l (Fin (1 / 10 ^ 8)) ''null-mle''
      (Some \<lparr>eigvals = eigvals e, eigvecs = eigvecs e\<rparr>)) = Inr v"
    using estimate_s_rss_null_mle [OF assms] by blast
  have "estimate_s_rss L l (Fin (1 / 10 ^ 8)) ''null-mle''
      (Some \<lparr>eigvals = eigvals e, eigvecs = eigvecs e\<rparr>)
      = (Inr v, Some (\<lparr>eigvals = clamp (Fin (1 / 10 ^ 8)) (eigvals e), eigvecs = eigvecs e\<rparr>))"
    using v estimate_s_rss_snd [of L l "Fin (1 / 10 ^ 8)" "''null-mle''"
        "\<lparr>eigvals = eigvals e, eigvecs = eigvecs e\<rparr>"]
    by (simp add: prod_eq_iff)
  then show ?thesis
    using assms
    by (simp add: kriging_rss_def locus_defs spectrum_of_Some Let_def rev_clamp
        split: sum.splits)
qed

text \<open>
  C10. With a dictionary \<open>e\<close> supplied by the caller, \<^verbatim>\<open>estimate_s_rss\<close> leaves in the
  caller's array of eigenvalues the array clamped at \<open>r_tol\<close>, on every path, also
  when it raises for the sample size or the method. \<^verbatim>\<open>kriging_rss\<close>, which writes
  through the reversed view, leaves the array clamped at \<open>r_tol\<close> when \<open>s\<close> is
  supplied, and clamped at \<open>1e-8\<close> and then at \<open>r_tol\<close> when \<open>s\<close> is absent and the
  sample size is valid. In all these cases every entry that was below \<open>r_tol\<close> is 0
  after the call, and the matrix of eigenvectors is the one supplied. The locus is a
  value that both functions only read, through \<open>copy\<close>.
\<close>

theorem spectrum_clamped_in_place:
  assumes "s \<noteq> None \<or> 1 < sample_size l"
  shows "(\<exists>e1. snd (estimate_s_rss L l r_tol method (Some e)) = Some e1
            \<and> eigvecs e1 = eigvecs e
            \<and> eigvals e1 = clamp r_tol (eigvals e)
            \<and> (\<forall>k<length (eigvals e). eigvals e ! k < r_tol \<longrightarrow> eigvals e1 ! k = 0))
       \<and> (\<exists>e2. snd (kriging_rss L l r_tol s (Some e)) = Some e2
            \<and> eigvecs e2 = eigvecs e
            \<and> eigvals e2 =
                clamp r_tol (case s of None \<Rightarrow> clamp (Fin (1 / 10 ^ 8)) (eigvals e)
                                     | Some s' \<Rightarrow> eigvals e)
            \<and> (\<forall>k<length (eigvals e). eigvals e ! k < r_tol \<longrightarrow> eigvals e2 ! k = 0))"
proof (intro conjI)
  show "\<exists>e1. snd (estimate_s_rss L l r_tol method (Some e)) = Some e1
            \<and> eigvecs e1 = eigvecs e
            \<and> eigvals e1 = clamp r_tol (eigvals e)
            \<and> (\<forall>k<length (eigvals e). eigvals e ! k < r_tol \<longrightarrow> eigvals e1 ! k = 0)"
    by (simp add: estimate_s_rss_snd clamp_nth_below)
next
  show "\<exists>e2. snd (kriging_rss L l r_tol s (Some e)) = Some e2
            \<and> eigvecs e2 = eigvecs e
            \<and> eigvals e2 =
                clamp r_tol (case s of None \<Rightarrow> clamp (Fin (1 / 10 ^ 8)) (eigvals e)
                                     | Some s' \<Rightarrow> eigvals e)
            \<and> (\<forall>k<length (eigvals e). eigvals e ! k < r_tol \<longrightarrow> eigvals e2 ! k = 0)"
  proof (cases s)
    case None
    with assms have "1 < sample_size l" by simp
    from kriging_rss_snd_estimated [OF this] None show ?thesis
      by (simp add: clamp_clamp_nth_below)
  next
    case (Some s')
    then show ?thesis
      by (simp add: kriging_rss_snd_given clamp_nth_below)
  qed
qed

theorem spectrum_clamped_in_place_witness:
  "1 < sample_size (pair_locus 1 1 0 100)
   \<and> snd (estimate_s_rss stub_lib (pair_locus 1 1 0 100) (Fin (1 / 10 ^ 3)) ''null-mle''
            (Some (unit_spectrum (1 / 10 ^ 4) 2)))
       = Some (unit_spectrum 0 2)
   \<and> snd (kriging_rss stub_lib (pair_locus 1 1 0 100) (Fin (1 / 10 ^ 3)) None
            (Some (unit_spectrum (1 / 10 ^ 4) 2)))
       = Some (unit_spectrum 0 2)"
proof -
  have h: "None \<noteq> (None :: fl option) \<or> 1 < sample_size (pair_locus 1 1 0 100)"
    by (simp add: pair_locus_sel)
  have c1: "clamp (Fin (1 / 10 ^ 3)) (eigvals (unit_spectrum (1 / 10 ^ 4) 2)) = [Fin 0, Fin 2]"
    by (simp add: clamp_def unit_spectrum_def fl_defs)
  have c2: "clamp (Fin (1 / 10 ^ 3)) (clamp (Fin (1 / 10 ^ 8)) (eigvals (unit_spectrum (1 / 10 ^ 4) 2)))
      = [Fin 0, Fin 2]"
    by (simp add: clamp_def unit_spectrum_def fl_defs)
  have eq: "e' = unit_spectrum 0 2"
    if "eigvecs e' = eigvecs (unit_spectrum d1 d2)" and "eigvals e' = [Fin 0, Fin 2]"
    for e' :: eigens and d1 d2
    using that by (simp add: unit_spectrum_def)
  from spectrum_clamped_in_place [OF h, of stub_lib "Fin (1 / 10 ^ 3)" "''null-mle''"
      "unit_spectrum (1 / 10 ^ 4) 2"]
  obtain e1 e2 where
    e1: "snd (estimate_s_rss stub_lib (pair_locus 1 1 0 100) (Fin (1 / 10 ^ 3)) ''null-mle''
            (Some (unit_spectrum (1 / 10 ^ 4) 2))) = Some e1"
      "eigvecs e1 = eigvecs (unit_spectrum (1 / 10 ^ 4) 2)"
      "eigvals e1 = clamp (Fin (1 / 10 ^ 3)) (eigvals (unit_spectrum (1 / 10 ^ 4) 2))"
    and e2: "snd (kriging_rss stub_lib (pair_locus 1 1 0 100) (Fin (1 / 10 ^ 3)) None
            (Some (unit_spectrum (1 / 10 ^ 4) 2))) = Some e2"
      "eigvecs e2 = eigvecs (unit_spectrum (1 / 10 ^ 4) 2)"
      "eigvals e2 = clamp (Fin (1 / 10 ^ 3))
          (clamp (Fin (1 / 10 ^ 8)) (eigvals (unit_spectrum (1 / 10 ^ 4) 2)))"
    by auto
  have "e1 = unit_spectrum 0 2"
    using e1(2,3) unfolding c1 by (rule eq)
  moreover have "e2 = unit_spectrum 0 2"
    using e2(2,3) unfolding c2 by (rule eq)
  ultimately show ?thesis
    using h e1(1) e2(1) by simp
qed

section \<open>The grid of scale multipliers\<close>

lemma foldl_fmax2_Fin: "foldl fmax2 (Fin x) (map Fin xs) = Fin (foldl max x xs)"
  by (induction xs arbitrary: x) (simp_all add: fmax2_def max_def)

lemma foldl_max_ge: "(x::real) \<le> foldl max x xs"
proof (induction xs arbitrary: x)
  case Nil
  then show ?case by simp
next
  case (Cons y ys)
  have "x \<le> max x y" by simp
  also have "\<dots> \<le> foldl max (max x y) ys" by (rule Cons.IH)
  finally show ?case by simp
qed

lemma np_max_squares:
  assumes "xs \<noteq> []"
  shows "\<exists>m\<ge>0. np_max (map (\<lambda>x. x * x) (map Fin xs)) = Inr (Fin m)"
proof -
  obtain y ys where xs: "xs = y # ys"
    using assms by (cases xs) auto
  have "np_max (map (\<lambda>x. x * x) (map Fin xs)) = Inr (Fin (foldl max (y * y) (map (\<lambda>x. x * x) ys)))"
    using foldl_fmax2_Fin [of "y * y" "map (\<lambda>x. x * x) ys"]
    by (simp add: xs comp_def)
  moreover have "0 \<le> foldl max (y * y) (map (\<lambda>x. x * x) ys)"
    using foldl_max_ge [of "y * y" "map (\<lambda>x. x * x) ys"] zero_le_square [of y]
    by linarith
  ultimately show ?thesis by blast
qed

lemma grid_a_max_Fin:
  assumes "0 \<le> m"
  shows "grid_a_max (Fin m) = Fin (if m < 1 then 2 else 2 * sqrt m)"
  using assms by (simp add: grid_a_max_def one_fl_def)

lemma a_max_ge_2: "0 \<le> m \<Longrightarrow> 2 \<le> (if m < 1 then 2 else 2 * sqrt m)" for m :: real
  by (simp add: real_le_rsqrt)

lemma log_ratio: "0 < x \<Longrightarrow> log 2 x / log 2 (105/100) = log (105/100) x"
  by (simp add: log_def)

lemma npoint_of_pos:
  assumes "2 \<le> a"
  shows "0 < npoint_of a"
proof -
  have "1 < a / (8/10)" using assms by simp
  then have "0 < log (105/100) (a / (8/10))"
    by simp
  then show ?thesis
    using assms by (simp add: npoint_of_def log_ratio)
qed

lemma py_int_fceil: "py_int (fceil (Fin x)) = Inr \<lceil>x\<rceil>"
  by simp

lemma obtain_grid_finite:
  assumes "xs \<noteq> []"
  shows "\<exists>m\<ge>0. np_max (map (\<lambda>x. x * x) (map Fin xs)) = Inr (Fin m) \<and>
           obtain_grid z (map Fin xs) =
             Inr (map (\<lambda>k. Fin ((105/100) powi k * (if m < 1 then 2 else 2 * sqrt m)))
                    [- min (npoint_of (if m < 1 then 2 else 2 * sqrt m)) (int (length z) - 1)..0])"
proof -
  obtain m where m: "0 \<le> m" "np_max (map (\<lambda>x. x * x) (map Fin xs)) = Inr (Fin m)"
    using np_max_squares [OF assms] by blast
  let ?a = "if m < 1 then 2 else 2 * sqrt m"
  have a: "2 \<le> ?a" using a_max_ge_2 [OF m(1)] .
  then have pos: "0 < ?a / (8/10)" "?a \<noteq> 0" by simp_all
  have "0 < log 2 (105/100 :: real)"
    by (subst zero_less_log_cancel_iff) simp_all
  then have l: "log 2 (105/100) \<noteq> (0::real)"
    by linarith
  have "flog2 (Fin ?a / Fin (8/10)) / flog2 (Fin (105/100)) = Fin (log 2 (?a / (8/10)) / log 2 (105/100))"
    using pos l by simp
  then have pi: "py_int (fceil (flog2 (grid_a_max (Fin m) / Fin (8/10)) / flog2 (Fin (105/100))))
      = Inr (npoint_of ?a)"
    unfolding grid_a_max_Fin [OF m(1)] npoint_of_def by (simp only: py_int_fceil)
  have "obtain_grid z (map Fin xs) =
             Inr (map (\<lambda>k. Fin ((105/100) powi k) * grid_a_max (Fin m))
                    [- min (npoint_of ?a) (int (length z) - 1)..0])"
    unfolding obtain_grid_def m(2) Let_def by (simp only: sum.case pi)
  then have "obtain_grid z (map Fin xs) =
             Inr (map (\<lambda>k. Fin ((105/100) powi k * ?a))
                    [- min (npoint_of ?a) (int (length z) - 1)..0])"
    by (simp only: grid_a_max_Fin [OF m(1)] times_fl.simps)
  with m show ?thesis by blast
qed

lemma npoint_of_log:
  assumes "0 < a"
  shows "npoint_of a = \<lceil>log (105/100) (a / (8/10))\<rceil>"
proof -
  have "0 < a / (8/10)" using assms by simp
  then show ?thesis
    unfolding npoint_of_def by (simp only: log_ratio)
qed

lemma grid_point_above:
  fixes a :: real
  assumes a: "0 < a" and n: "npoint \<le> npoint_of a" and k: "- npoint \<le> k"
  shows "(8/10) / (105/100) < (105/100) powi k * a"
proof -
  let ?q = "105/100 :: real"
  let ?L = "log ?q (a / (8/10))"
  have "real_of_int npoint \<le> of_int \<lceil>?L\<rceil>"
    using n a by (simp add: npoint_of_log)
  also have "\<dots> < ?L + 1"
    using ceiling_correct [of ?L] by linarith
  finally have "?q powr (real_of_int npoint) < ?q powr (?L + 1)"
    by simp
  also have "\<dots> = (a / (8/10)) * ?q"
    using a by (simp add: powr_add)
  finally have up: "?q powi npoint < (a / (8/10)) * ?q"
    by (simp add: powr_real_of_int')
  have pos: "0 < ?q powi npoint"
    by simp
  have "?q powi (- npoint) \<le> ?q powi k"
    using k by (intro power_int_increasing) simp_all
  then have "?q powi (- npoint) * a \<le> ?q powi k * a"
    using a by (intro mult_right_mono) simp_all
  moreover have "(8/10) / ?q < ?q powi (- npoint) * a"
  proof -
    have "(8/10) * ?q powi npoint < a * ?q"
      using up by (simp add: field_simps)
    then have "(8/10) / ?q < a / ?q powi npoint"
      using pos by (simp add: field_simps)
    then show ?thesis
      by (simp add: power_int_minus field_simps)
  qed
  ultimately show ?thesis by linarith
qed

lemma grid_first_point_below:
  fixes a :: real
  assumes a: "0 < a"
  shows "(105/100) powi (- npoint_of a) * a \<le> 8/10"
proof -
  let ?q = "105/100 :: real"
  let ?L = "log ?q (a / (8/10))"
  have "?L \<le> of_int \<lceil>?L\<rceil>"
    by simp
  then have "?q powr ?L \<le> ?q powr (of_int \<lceil>?L\<rceil>)"
    by simp
  then have "a / (8/10) \<le> ?q powi (npoint_of a)"
    using a by (simp add: powr_real_of_int' npoint_of_log)
  moreover have "0 < ?q powi (npoint_of a)"
    by simp
  ultimately have "a / ?q powi (npoint_of a) \<le> 8/10"
    by (simp add: field_simps)
  then show ?thesis
    by (simp add: power_int_minus field_simps)
qed

text \<open>
  C5, as the code has it. Let the standardized differences be finite and as many as the
  variants, at least one. Then the grid is built, with \<open>a_max = 2\<close> when the largest
  squared standardized difference \<open>m\<close> is below 1 and \<open>a_max = 2 sqrt m\<close> otherwise, and
  with \<open>npoint\<close> the minimum of \<open>ceil(log(a_max / 0.8) / log 1.05)\<close> and the variant
  count less one. The grid has \<open>npoint + 1\<close> points, at most as many as the variants;
  its last point is \<open>a_max\<close>; each point is 1.05 times the one before; every point is
  above \<open>0.8 / 1.05\<close>; and when the variant count does not cut \<open>npoint\<close>, the first
  point is at most 0.8.
\<close>

theorem a_grid_shape:
  assumes "zsd = map Fin xs" and "xs \<noteq> []" and "length z = length xs"
  shows "\<exists>m a npoint g.
           np_max (map (\<lambda>x. x * x) zsd) = Inr (Fin m)
         \<and> a = (if m < 1 then 2 else 2 * sqrt m)
         \<and> npoint = min (npoint_of a) (int (length z) - 1) \<and> 0 \<le> npoint
         \<and> obtain_grid z zsd = Inr g
         \<and> length g = nat npoint + 1 \<and> length g \<le> length z
         \<and> last g = Fin a
         \<and> (\<forall>i. Suc i < length g \<longrightarrow> g ! Suc i = Fin (105/100) * g ! i)
         \<and> (\<forall>x\<in>set g. Fin ((8/10) / (105/100)) < x)
         \<and> (npoint = npoint_of a \<longrightarrow> hd g \<le> Fin (8/10))"
proof -
  obtain m where m: "0 \<le> m" "np_max (map (\<lambda>x. x * x) (map Fin xs)) = Inr (Fin m)"
    and g: "obtain_grid z (map Fin xs) =
             Inr (map (\<lambda>k. Fin ((105/100) powi k * (if m < 1 then 2 else 2 * sqrt m)))
                    [- min (npoint_of (if m < 1 then 2 else 2 * sqrt m)) (int (length z) - 1)..0])"
    using obtain_grid_finite [OF assms(2), of z] by blast
  define a where "a = (if m < 1 then 2 else 2 * sqrt m)"
  define npoint where "npoint = min (npoint_of a) (int (length z) - 1)"
  define g' where "g' = map (\<lambda>k. Fin ((105/100) powi k * a)) [- npoint..0]"
  have a: "2 \<le> a" "0 < a"
    using a_max_ge_2 [OF m(1)] by (simp_all add: a_def)
  have z: "1 \<le> length z"
    using assms(2,3) by (cases xs) simp_all
  have np: "0 \<le> npoint" "npoint \<le> npoint_of a" "npoint \<le> int (length z) - 1"
    using npoint_of_pos [OF a(1)] z by (auto simp: npoint_def)
  have len: "length g' = nat npoint + 1"
    using np(1) by (simp add: g'_def nat_add_distrib)
  have nth: "g' ! i = Fin ((105/100) powi (- npoint + int i) * a)" if "i < length g'" for i
    using that len np(1) by (simp add: g'_def)
  have "length g' \<le> length z"
    using np(1,3) len by linarith
  moreover have "last g' = Fin a"
  proof -
    have "g' \<noteq> []" using len by auto
    then have "last g' = g' ! (length g' - 1)"
      by (rule last_conv_nth)
    also have "\<dots> = Fin ((105/100) powi (- npoint + int (length g' - 1)) * a)"
      using len by (intro nth) simp
    also have "- npoint + int (length g' - 1) = 0"
      using len np(1) by simp
    finally show ?thesis by simp
  qed
  moreover have "\<forall>i. Suc i < length g' \<longrightarrow> g' ! Suc i = Fin (105/100) * g' ! i"
  proof (intro allI impI)
    fix i assume i: "Suc i < length g'"
    have "- npoint + int (Suc i) = (- npoint + int i) + 1"
      by simp
    then have "(105/100 :: real) powi (- npoint + int (Suc i)) = (105/100) * (105/100) powi (- npoint + int i)"
      by (simp only: power_int_add_1' [of "105/100 :: real" "- npoint + int i", OF disjI1]
            divide_eq_0_iff numeral_neq_zero simp_thms)
    then show "g' ! Suc i = Fin (105/100) * g' ! i"
      using i by (simp add: nth mult.assoc)
  qed
  moreover have "\<forall>x\<in>set g'. Fin ((8/10) / (105/100)) < x"
  proof
    fix x assume "x \<in> set g'"
    then obtain k where "- npoint \<le> k" and x: "x = Fin ((105/100) powi k * a)"
      by (auto simp: g'_def)
    from grid_point_above [OF a(2) np(2) this(1)] show "Fin ((8/10) / (105/100)) < x"
      by (simp add: x)
  qed
  moreover have "npoint = npoint_of a \<longrightarrow> hd g' \<le> Fin (8/10)"
  proof
    assume eq: "npoint = npoint_of a"
    have "g' \<noteq> []" using len by auto
    then have "hd g' = g' ! 0"
      by (simp add: hd_conv_nth)
    also have "\<dots> = Fin ((105/100) powi (- npoint) * a)"
      using len nth [of 0] by simp
    finally show "hd g' \<le> Fin (8/10)"
      using grid_first_point_below [OF a(2)] by (simp add: eq)
  qed
  ultimately show ?thesis
    using m(2) g np(1) len unfolding assms(1) a_def [symmetric] npoint_def [symmetric] g'_def [symmetric]
    by (intro exI [of _ m] exI [of _ a] exI [of _ npoint] exI [of _ g']) (simp add: a_def npoint_def)
qed

section \<open>Two uncorrelated variants\<close>

lemma transpose_2x2: "transpose [[a, b], [c, d]] = [[a, c], [b, d]]"
  by (simp add: transpose.simps)

lemma kriging_precision_unit:
  "kriging_precision (Fin 0) [Fin 1, Fin 1] [[Fin 0, Fin 1], [Fin 1, Fin 0]]
     = [[Fin 1, Fin 0], [Fin 0, Fin 1]]"
  by (simp add: kriging_precision_def matmul_def transpose_2x2 fdot_def fsum_def fl_defs)

lemma condmean_unit: "condmean [[Fin 1, Fin 0], [Fin 0, Fin 1]] [Fin a, Fin b] = [Fin 0, Fin 0]"
  by (simp add: condmean_def fdot_def fsum_def fl_defs numeral_2_eq_2)

lemma condvar_unit: "condvar [[Fin 1, Fin 0], [Fin 0, Fin 1]] [Fin a, Fin b] = [Fin 1, Fin 1]"
  by (simp add: condvar_def fl_defs numeral_2_eq_2)

lemma z_std_diff_unit: "z_std_diff [Fin a, Fin b] [Fin 0, Fin 0] [Fin 1, Fin 1] = [Fin a, Fin b]"
  by (simp add: z_std_diff_def fl_defs)

lemma transform_z_zero: "2 < n \<Longrightarrow> transform_z n [Fin 0, Fin 0] = [Fin 0, Fin 0]"
  by (simp add: transform_z_def fl_defs)

lemma upto_m1_0: "[- 1..0::int] = [- 1, 0]"
  by (simp add: upto_rec1)

lemma obtain_grid_zero_pair:
  "obtain_grid [Fin 0, Fin 0] [Fin 0, Fin 0] = Inr [Fin (40/21), Fin 2]"
proof -
  have m: "np_max (map (\<lambda>x. x * x) (map Fin [0, 0])) = Inr (Fin 0)"
    by (simp add: fmax2_def)
  obtain m' where "np_max (map (\<lambda>x. x * x) (map Fin [0, 0::real])) = Inr (Fin m')"
    and g: "obtain_grid [Fin 0, Fin 0] (map Fin [0, 0]) =
             Inr (map (\<lambda>k. Fin ((105/100) powi k * (if m' < 1 then 2 else 2 * sqrt m')))
                    [- min (npoint_of (if m' < 1 then 2 else 2 * sqrt m'))
                           (int (length [Fin 0, Fin 0]) - 1)..0])"
    using obtain_grid_finite [of "[0, 0]" "[Fin 0, Fin 0]"] by blast
  with m have m': "m' = 0" by simp
  have "min (npoint_of 2) 1 = 1"
    using npoint_of_pos [of 2] by simp
  then show ?thesis
    using g by (simp add: m' upto_m1_0 power_int_minus)
qed

lemma transform_z_100: "transform_z 100 [Fin 1, Fin 0] = [Fin 1, Fin 0]"
  by (simp add: transform_z_def fl_defs)

lemma obtain_grid_one_zero:
  "obtain_grid [Fin 1, Fin 0] [Fin 1, Fin 0] = Inr [Fin (40/21), Fin 2]"
proof -
  have m: "np_max (map (\<lambda>x. x * x) (map Fin [1, 0])) = Inr (Fin 1)"
    by (simp add: fmax2_def)
  obtain m' where "np_max (map (\<lambda>x. x * x) (map Fin [1, 0::real])) = Inr (Fin m')"
    and g: "obtain_grid [Fin 1, Fin 0] (map Fin [1, 0]) =
             Inr (map (\<lambda>k. Fin ((105/100) powi k * (if m' < 1 then 2 else 2 * sqrt m')))
                    [- min (npoint_of (if m' < 1 then 2 else 2 * sqrt m'))
                           (int (length [Fin 1, Fin 0]) - 1)..0])"
    using obtain_grid_finite [of "[1, 0]" "[Fin 1, Fin 0]"] by blast
  with m have m': "m' = 1" by simp
  have "min (npoint_of 2) 1 = 1"
    using npoint_of_pos [of 2] by simp
  then show ?thesis
    using g by (simp add: m' upto_m1_0 power_int_minus)
qed

lemma kriging_rss_identity_pair:
  assumes "1 < n" and "t \<le> 1"
    and "transform_z n [Fin b1, Fin b2] = [Fin t1, Fin t2]"
    and "obtain_grid [Fin t1, Fin t2] [Fin t1, Fin t2] = Inr g"
  shows "kriging_rss L (pair_locus b1 b2 r n) (Fin t) (Some (Fin 0)) (Some (unit_spectrum 1 1))
    = (case mixture_logLR L [Fin t1, Fin t2] [Fin 0, Fin 0] [Fin 1, Fin 1] g of
         Inl err \<Rightarrow> (Inl err, Some (unit_spectrum 1 1))
       | Inr lr \<Rightarrow>
           (Inr \<lparr>kf_SNPID = [''rs1'', ''rs2''], kf_z = [Fin t1, Fin t2],
                 kf_condmean = [Fin 0, Fin 0], kf_condvar = [Fin 1, Fin 1],
                 kf_z_std_diff = [Fin t1, Fin t2], kf_logLR = lr\<rparr>,
            Some (unit_spectrum 1 1)))"
proof -
  have cl: "clamp (Fin t) (rev (eigvals (unit_spectrum 1 1))) = [Fin 1, Fin 1]"
    "clamp (Fin t) (eigvals (unit_spectrum 1 1)) = [Fin 1, Fin 1]"
    "map rev (eigvecs (unit_spectrum 1 1)) = [[Fin 0, Fin 1], [Fin 1, Fin 0]]"
    using assms(2) by (simp_all add: clamp_def unit_spectrum_def)
  have e: "unit_spectrum 1 1\<lparr>eigvals := [Fin 1, Fin 1]\<rparr> = unit_spectrum 1 1"
    by (simp add: unit_spectrum_def)
  show ?thesis
    using assms(1)
    unfolding kriging_rss_given cl z_scores_pair pair_locus_sel Let_def e assms(3)
      kriging_precision_unit condmean_unit condvar_unit z_std_diff_unit assms(4)
    by (simp split: sum.splits)
qed

lemma stub_mixture: "mixture_logLR stub_lib z cm cv g = Inr (map (\<lambda>x. Fin 0) z)"
  by (simp add: stub_lib_def)

lemma kriging_rss_stub_zero_pair:
  "kriging_rss stub_lib (pair_locus 0 0 0 100) (Fin (1 / 10 ^ 8)) (Some (Fin 0))
       (Some (unit_spectrum 1 1))
     = (Inr \<lparr>kf_SNPID = [''rs1'', ''rs2''], kf_z = [Fin 0, Fin 0],
              kf_condmean = [Fin 0, Fin 0], kf_condvar = [Fin 1, Fin 1],
              kf_z_std_diff = [Fin 0, Fin 0], kf_logLR = [Fin 0, Fin 0]\<rparr>,
        Some (unit_spectrum 1 1))"
proof -
  have n: "(1::int) < 100" "(2::int) < 100" by simp_all
  show ?thesis
    using kriging_rss_identity_pair [OF n(1) _ transform_z_zero [OF n(2)] obtain_grid_zero_pair,
        of "1 / 10 ^ 8" stub_lib 0]
    by (simp add: stub_mixture)
qed

lemma kriging_rss_stub_one_zero:
  "kriging_rss stub_lib (pair_locus 1 0 0 100) (Fin (1 / 10 ^ 8)) (Some (Fin 0))
       (Some (unit_spectrum 1 1))
     = (Inr \<lparr>kf_SNPID = [''rs1'', ''rs2''], kf_z = [Fin 1, Fin 0],
              kf_condmean = [Fin 0, Fin 0], kf_condvar = [Fin 1, Fin 1],
              kf_z_std_diff = [Fin 1, Fin 0], kf_logLR = [Fin 0, Fin 0]\<rparr>,
        Some (unit_spectrum 1 1))"
proof -
  have n: "(1::int) < 100" by simp
  show ?thesis
    using kriging_rss_identity_pair [OF n _ transform_z_100 obtain_grid_one_zero,
        of "1 / 10 ^ 8" stub_lib 0]
    by (simp add: stub_mixture)
qed

theorem a_grid_shape_witness:
  "[Fin 0, Fin 0] = map Fin [0, 0] \<and> [0, 0 :: real] \<noteq> []
   \<and> length [Fin 0, Fin 0 :: fl] = length [0, 0 :: real]
   \<and> (\<exists>g. obtain_grid [Fin 0, Fin 0] [Fin 0, Fin 0] = Inr g \<and> length g \<le> 2
          \<and> last g = Fin 2 \<and> Fin (16/21) < hd g)"
proof -
  have h: "[Fin 0, Fin 0] = map Fin [0, 0]" "[0, 0 :: real] \<noteq> []"
    "length [Fin 0, Fin 0 :: fl] = length [0, 0 :: real]"
    by simp_all
  have m0: "np_max (map (\<lambda>x. x * x) [Fin 0, Fin 0]) = Inr (Fin 0)"
    by (simp add: fmax2_def)
  from a_grid_shape [OF h]
  obtain m a npoint g where
    m: "np_max (map (\<lambda>x. x * x) [Fin 0, Fin 0]) = Inr (Fin m)"
    and a: "a = (if m < 1 then 2 else 2 * sqrt m)"
    and g: "obtain_grid [Fin 0, Fin 0] [Fin 0, Fin 0] = Inr g"
      "length g = nat npoint + 1" "length g \<le> length [Fin 0, Fin 0 :: fl]"
      "last g = Fin a" "\<forall>x\<in>set g. Fin ((8/10) / (105/100)) < x"
    by (elim exE conjE) (rule that)
  from m m0 have "m = 0" by simp
  then have a2: "a = 2" using a by simp
  have "g \<noteq> []" using g(2) by auto
  then have "hd g \<in> set g" by simp
  then have "Fin ((8/10) / (105/100)) < hd g"
    using g(5) by blast
  then have "Fin (16/21) < hd g" by simp
  then have "obtain_grid [Fin 0, Fin 0] [Fin 0, Fin 0] = Inr g \<and> length g \<le> 2
          \<and> last g = Fin 2 \<and> Fin (16/21) < hd g"
    using g(1,3,4) a2 by simp
  then show ?thesis
    using h by blast
qed

text \<open>
  The claim C5 as the spec states it (at most variant count less one grid points)
  fails on two uncorrelated variants with z-scores 0: \<^verbatim>\<open>kriging_rss\<close> computes the
  standardized differences 0 and 0, and the grid has the two points \<open>2 / 1.05\<close> and 2.
\<close>

theorem a_grid_size_counterexample:
  "kriging_rss stub_lib (pair_locus 0 0 0 100) (Fin (1 / 10 ^ 8)) (Some (Fin 0))
       (Some (unit_spectrum 1 1))
     = (Inr \<lparr>kf_SNPID = [''rs1'', ''rs2''], kf_z = [Fin 0, Fin 0],
              kf_condmean = [Fin 0, Fin 0], kf_condvar = [Fin 1, Fin 1],
              kf_z_std_diff = [Fin 0, Fin 0], kf_logLR = [Fin 0, Fin 0]\<rparr>,
        Some (unit_spectrum 1 1))
   \<and> obtain_grid [Fin 0, Fin 0] [Fin 0, Fin 0] = Inr [Fin (40/21), Fin 2]
   \<and> \<not> length [Fin (40/21), Fin 2] \<le> length [Fin 0, Fin 0 :: fl] - 1"
  using kriging_rss_stub_zero_pair obtain_grid_zero_pair by simp

section \<open>The conditional moments\<close>

lemma kriging_rss_fields:
  assumes "fst (kriging_rss L l r_tol (Some s') (Some e)) = Inr f"
  shows "kf_z f = transform_z (sample_size l) (z_scores l)"
    and "kf_condmean f =
           condmean (kriging_precision s' (clamp r_tol (rev (eigvals e))) (map rev (eigvecs e)))
             (transform_z (sample_size l) (z_scores l))"
    and "kf_condvar f =
           condvar (kriging_precision s' (clamp r_tol (rev (eigvals e))) (map rev (eigvecs e)))
             (transform_z (sample_size l) (z_scores l))"
  using assms
  by (auto simp: kriging_rss_given Let_def split: if_splits sum.splits)

lemma kriging_rss_clamped_spectrum:
  "fst (kriging_rss L l r_tol (Some s') (Some (e\<lparr>eigvals := clamp r_tol (eigvals e)\<rparr>)))
     = fst (kriging_rss L l r_tol (Some s') (Some e))"
  by (simp add: kriging_rss_given Let_def clamp_rev clamp_idem split: sum.splits)

lemma z_scores_update:
  "z_scores (l\<lparr>sumstats := (sumstats l)[i := row]\<rparr>)
     = (z_scores l)[i := (if isnan (beta row / se row) then 0 else beta row / se row)]"
  by (simp add: z_scores_def locus_defs map_update)

lemma transform_z_update:
  "transform_z n (z[i := v]) =
     (transform_z n z)[i := fsqrt (Fin (of_int (n - 1)) / (v * v + Fin (of_int n) - Fin 2)) * v]"
  by (simp add: transform_z_def map_update)

lemma condmean_update:
  assumes "i < length z"
  shows "condmean precision (z[i := v]) ! i = condmean precision z ! i"
  using assms by (simp add: condmean_def)

lemma condvar_update: "condvar precision (z[i := v]) = condvar precision z"
  by (simp add: condvar_def)

text \<open>
  C1. Take two calls of \<^verbatim>\<open>kriging_rss\<close> with the same \<open>r_tol\<close>, the same precomputed
  \<open>s\<close> and the same precomputed spectrum (as supplied to the first call, or as the
  first call left it), on two loci that differ only in the effect size and the
  standard error of the variant \<open>i\<close>, hence only in \<open>z[i]\<close>. When both return a
  frame, the two frames have the same \<^verbatim>\<open>condmean[i]\<close>, and the same column
  \<^verbatim>\<open>condvar\<close>. The library routines of the two calls may differ.
\<close>

theorem condmean_leave_one_out:
  assumes "i < length (sumstats l)"
    and "l' = l\<lparr>sumstats := (sumstats l)[i := (sumstats l ! i)\<lparr>beta := b, se := c\<rparr>]\<rparr>"
    and "e' = e \<or> Some e' = snd (kriging_rss L l r_tol (Some s') (Some e))"
    and "fst (kriging_rss L l r_tol (Some s') (Some e)) = Inr f"
    and "fst (kriging_rss L' l' r_tol (Some s') (Some e')) = Inr f'"
  shows "kf_condmean f' ! i = kf_condmean f ! i \<and> kf_condvar f' = kf_condvar f"
proof -
  let ?P = "kriging_precision s' (clamp r_tol (rev (eigvals e))) (map rev (eigvecs e))"
  let ?z = "transform_z (sample_size l) (z_scores l)"
  have "fst (kriging_rss L' l' r_tol (Some s') (Some e)) = Inr f'"
    using assms(3,5) by (auto simp: kriging_rss_snd_given kriging_rss_clamped_spectrum)
  note f' = kriging_rss_fields [OF this]
  note f = kriging_rss_fields [OF assms(4)]
  have n: "sample_size l' = sample_size l"
    by (simp add: assms(2))
  obtain v where z': "transform_z (sample_size l') (z_scores l') = ?z[i := v]"
    unfolding assms(2) by (simp add: z_scores_update transform_z_update)
  have i: "i < length ?z"
    using assms(1) by (simp add: length_transform_z length_z_scores)
  show ?thesis
    unfolding f f' z' using condmean_update [OF i] by (simp add: condvar_update)
qed

theorem condmean_leave_one_out_witness:
  "0 < length (sumstats (pair_locus 0 0 0 100))
   \<and> pair_locus 1 0 0 100 =
        (pair_locus 0 0 0 100)\<lparr>sumstats := (sumstats (pair_locus 0 0 0 100))
           [0 := (sumstats (pair_locus 0 0 0 100) ! 0)\<lparr>beta := Fin 1, se := Fin 1\<rparr>]\<rparr>
   \<and> (\<exists>f f'.
         fst (kriging_rss stub_lib (pair_locus 0 0 0 100) (Fin (1 / 10 ^ 8)) (Some (Fin 0))
                (Some (unit_spectrum 1 1))) = Inr f
       \<and> fst (kriging_rss stub_lib (pair_locus 1 0 0 100) (Fin (1 / 10 ^ 8)) (Some (Fin 0))
                (Some (unit_spectrum 1 1))) = Inr f'
       \<and> kf_z f = [Fin 0, Fin 0] \<and> kf_z f' = [Fin 1, Fin 0]
       \<and> kf_condmean f' ! 0 = kf_condmean f ! 0 \<and> kf_condvar f' = kf_condvar f)"
proof -
  let ?l = "pair_locus 0 0 0 100" and ?l' = "pair_locus 1 0 0 100"
  let ?f = "\<lparr>kf_SNPID = [''rs1'', ''rs2''], kf_z = [Fin 0, Fin 0],
              kf_condmean = [Fin 0, Fin 0], kf_condvar = [Fin 1, Fin 1],
              kf_z_std_diff = [Fin 0, Fin 0], kf_logLR = [Fin 0, Fin 0]\<rparr>"
  let ?f' = "\<lparr>kf_SNPID = [''rs1'', ''rs2''], kf_z = [Fin 1, Fin 0],
              kf_condmean = [Fin 0, Fin 0], kf_condvar = [Fin 1, Fin 1],
              kf_z_std_diff = [Fin 1, Fin 0], kf_logLR = [Fin 0, Fin 0]\<rparr>"
  have i: "0 < length (sumstats ?l)"
    by (simp add: pair_locus_sel)
  have l': "?l' = ?l\<lparr>sumstats := (sumstats ?l)[0 := (sumstats ?l ! 0)\<lparr>beta := Fin 1, se := Fin 1\<rparr>]\<rparr>"
    by (simp add: pair_locus_def)
  have e: "unit_spectrum 1 1 = unit_spectrum 1 1
      \<or> Some (unit_spectrum 1 1) = snd (kriging_rss stub_lib ?l (Fin (1 / 10 ^ 8)) (Some (Fin 0))
                (Some (unit_spectrum 1 1)))"
    by simp
  have f: "fst (kriging_rss stub_lib ?l (Fin (1 / 10 ^ 8)) (Some (Fin 0))
                (Some (unit_spectrum 1 1))) = Inr ?f"
    using kriging_rss_stub_zero_pair by simp
  have f': "fst (kriging_rss stub_lib ?l' (Fin (1 / 10 ^ 8)) (Some (Fin 0))
                (Some (unit_spectrum 1 1))) = Inr ?f'"
    using kriging_rss_stub_one_zero by simp
  from condmean_leave_one_out [OF i l' e f f']
  have "kf_condmean ?f' ! 0 = kf_condmean ?f ! 0 \<and> kf_condvar ?f' = kf_condvar ?f" .
  then have "\<exists>f f'.
         fst (kriging_rss stub_lib ?l (Fin (1 / 10 ^ 8)) (Some (Fin 0))
                (Some (unit_spectrum 1 1))) = Inr f
       \<and> fst (kriging_rss stub_lib ?l' (Fin (1 / 10 ^ 8)) (Some (Fin 0))
                (Some (unit_spectrum 1 1))) = Inr f'
       \<and> kf_z f = [Fin 0, Fin 0] \<and> kf_z f' = [Fin 1, Fin 0]
       \<and> kf_condmean f' ! 0 = kf_condmean f ! 0 \<and> kf_condvar f' = kf_condvar f"
    using f f' by (intro exI [of _ ?f] exI [of _ ?f']) simp
  with i l' show ?thesis
    by (intro conjI)
qed

section \<open>The dictionary that \<^verbatim>\<open>locus_qc\<close> returns\<close>

lemma qc_loop_length:
  "qc_loop T L r_tol method loci = Inr rs \<Longrightarrow> length rs = length loci"
  by (induction loci arbitrary: rs) (auto split: sum.splits)

lemma qc_loop_each:
  "qc_loop T L r_tol method loci = Inr rs \<Longrightarrow> map (qc_one T L r_tol method) loci = map Inr rs"
  by (induction loci arbitrary: rs) (auto split: sum.splits)

text \<open>
  C9. When \<^verbatim>\<open>locus_qc\<close> returns a dictionary, the loop has returned its three frames
  for every locus of a non-empty locus set, and the dictionary holds, in this order:
  under \<^verbatim>\<open>expected_z\<close>, \<^verbatim>\<open>dentist_s\<close> and \<^verbatim>\<open>compare_maf\<close> the concatenated frames of
  the loop; under \<^verbatim>\<open>ld_4th_moment\<close> and \<^verbatim>\<open>ld_decay\<close> the tables that these two
  builders return for the locus set; and, exactly when the locus set has more than one
  locus, under \<^verbatim>\<open>cochran_q\<close> the table that \<^verbatim>\<open>cochran_q\<close> returns for the locus set and
  under \<^verbatim>\<open>snp_missingness\<close> the table that \<^verbatim>\<open>snp_missingness\<close> returns for it. For a
  single locus neither of the two builders has contributed a key, and the dictionary
  has the five per-locus keys only.
\<close>

theorem locus_qc_tables:
  assumes "fst (locus_qc T L loci r_tol method out_dir) = Inr qc"
  shows "\<exists>rs t4 td.
           map (qc_one T L r_tol method) loci = map Inr rs \<and> loci \<noteq> []
         \<and> ld_4th_moment T loci = Inr t4 \<and> ld_decay T loci = Inr td
         \<and> (if 1 < length loci
             then \<exists>tq tm. cochran_q T loci = Inr tq \<and> snp_missingness T loci = Inr tm
                    \<and> qc = [(''expected_z'', Expected_z (map fst rs)),
                             (''dentist_s'', Dentist_s (map (fst \<circ> snd) rs)),
                             (''compare_maf'', Compare_maf (map (snd \<circ> snd) rs)),
                             (''ld_4th_moment'', Table t4), (''ld_decay'', Table td),
                             (''cochran_q'', Table tq), (''snp_missingness'', Table tm)]
             else qc = [(''expected_z'', Expected_z (map fst rs)),
                        (''dentist_s'', Dentist_s (map (fst \<circ> snd) rs)),
                        (''compare_maf'', Compare_maf (map (snd \<circ> snd) rs)),
                        (''ld_4th_moment'', Table t4), (''ld_decay'', Table td)])
         \<and> map fst qc =
               [''expected_z'', ''dentist_s'', ''compare_maf'', ''ld_4th_moment'', ''ld_decay'']
               @ (if 1 < length loci then [''cochran_q'', ''snp_missingness''] else [])
         \<and> (''cochran_q'' \<in> fst ` set qc \<longleftrightarrow> 1 < length loci)
         \<and> (''snp_missingness'' \<in> fst ` set qc \<longleftrightarrow> 1 < length loci)"
proof -
  from assms obtain rs where rs: "qc_loop T L r_tol method loci = Inr rs"
    by (auto simp: locus_qc_def split: sum.splits)
  from assms rs have ne: "rs \<noteq> []"
    by (auto simp: locus_qc_def)
  with qc_loop_length [OF rs] have loci: "loci \<noteq> []"
    by auto
  from assms rs ne obtain t4 where t4: "ld_4th_moment T loci = Inr t4"
    by (auto simp: locus_qc_def Let_def split: sum.splits)
  from assms rs ne t4 obtain td where td: "ld_decay T loci = Inr td"
    by (auto simp: locus_qc_def Let_def split: sum.splits)
  let ?base = "[(''expected_z'', Expected_z (map fst rs)),
                (''dentist_s'', Dentist_s (map (fst \<circ> snd) rs)),
                (''compare_maf'', Compare_maf (map (snd \<circ> snd) rs)),
                (''ld_4th_moment'', Table t4), (''ld_decay'', Table td)]"
  show ?thesis
  proof (cases "1 < length loci")
    case True
    from assms rs ne t4 td True obtain tq where tq: "cochran_q T loci = Inr tq"
      by (auto simp: locus_qc_def Let_def split: sum.splits)
    from assms rs ne t4 td True tq obtain tm where tm: "snp_missingness T loci = Inr tm"
      by (auto simp: locus_qc_def Let_def split: sum.splits)
    from assms rs ne t4 td True tq tm
    have qc: "qc = ?base @ [(''cochran_q'', Table tq), (''snp_missingness'', Table tm)]"
      by (simp add: locus_qc_def Let_def)
    show ?thesis
      using qc_loop_each [OF rs] loci t4 td tq tm True
      by (intro exI [of _ rs] exI [of _ t4] exI [of _ td]) (simp add: qc)
  next
    case False
    from assms rs ne t4 td False have qc: "qc = ?base"
      by (simp add: locus_qc_def Let_def)
    show ?thesis
      using qc_loop_each [OF rs] loci t4 td False
      by (intro exI [of _ rs] exI [of _ t4] exI [of _ td]) (simp add: qc)
  qed
qed

text \<open>
  The cohort name of a locus has no part in the three per-locus computations; it only
  labels their frames.
\<close>

lemma cohort_irrelevant:
  "estimate_s_rss L (l\<lparr>cohort := c\<rparr>) = estimate_s_rss L l"
  "kriging_rss L (l\<lparr>cohort := c\<rparr>) = kriging_rss L l"
  "compute_dentist_s L (l\<lparr>cohort := c\<rparr>) = compute_dentist_s L l"
  "ld_r (intersect_sumstat_ld (l\<lparr>cohort := c\<rparr>)) = ld_r (intersect_sumstat_ld l)"
proof -
  have sp: "spectrum_of L (l\<lparr>cohort := c\<rparr>) = spectrum_of L l"
    by (intro ext) (simp add: spectrum_of_def split: option.splits)
  show "estimate_s_rss L (l\<lparr>cohort := c\<rparr>) = estimate_s_rss L l"
    by (intro ext) (simp add: estimate_s_rss_def z_scores_def locus_defs sp)
  then show "kriging_rss L (l\<lparr>cohort := c\<rparr>) = kriging_rss L l"
    by (intro ext) (simp add: kriging_rss_def z_scores_def locus_defs sp Let_def
        split: sum.splits option.splits prod.splits)
  show "compute_dentist_s L (l\<lparr>cohort := c\<rparr>) = compute_dentist_s L l"
    by (simp add: compute_dentist_s_def dentist_t_def locus_defs Let_def split: sum.splits)
  show "ld_r (intersect_sumstat_ld (l\<lparr>cohort := c\<rparr>)) = ld_r (intersect_sumstat_ld l)"
    by (simp add: locus_defs)
qed

lemma estimate_s_rss_stub_pair:
  assumes "1 < n" and "t \<le> 1"
  shows "estimate_s_rss stub_lib (pair_locus b1 b2 r n) (Fin t) ''null-mle'' (Some (unit_spectrum 1 1))
     = (Inr (Fin 0), Some (unit_spectrum 1 1))"
  using assms
  by (simp add: estimate_s_rss_def locus_defs spectrum_of_Some pair_locus_sel Let_def
      clamp_def unit_spectrum_def stub_lib_def)

lemma get_eigen_stub_pair:
  "get_eigen stub_lib (ld_r (pair_locus b1 b2 0 n)) = Inr (unit_spectrum 1 1)"
  by (simp add: get_eigen_def stub_lib_def pair_locus_sel unit_spectrum_def)

lemma compute_dentist_s_stub_pair:
  "compute_dentist_s stub_lib (pair_locus 0 0 0 100)
     = Inr [(''rs1'', NaN, NaN), (''rs2'', Fin 0, Fin 0)]"
proof -
  have "dentist_t (pair_locus 0 0 0 100) = Inr [NaN, Fin 0]"
    by (simp add: dentist_t_def locus_defs idxmin_pair Let_def)
       (simp add: pair_locus_def fl_defs)
  then show ?thesis
    by (simp add: compute_dentist_s_def locus_defs pair_locus_sel stub_lib_def)
qed

lemma kriging_rss_stub_zero_pair_1e3:
  "kriging_rss stub_lib (pair_locus 0 0 0 100) (Fin (1 / 10 ^ 3)) (Some (Fin 0))
       (Some (unit_spectrum 1 1))
     = (Inr \<lparr>kf_SNPID = [''rs1'', ''rs2''], kf_z = [Fin 0, Fin 0],
              kf_condmean = [Fin 0, Fin 0], kf_condvar = [Fin 1, Fin 1],
              kf_z_std_diff = [Fin 0, Fin 0], kf_logLR = [Fin 0, Fin 0]\<rparr>,
        Some (unit_spectrum 1 1))"
proof -
  have n: "(1::int) < 100" "(2::int) < 100" by simp_all
  show ?thesis
    using kriging_rss_identity_pair [OF n(1) _ transform_z_zero [OF n(2)] obtain_grid_zero_pair,
        of "1 / 10 ^ 3" stub_lib 0]
    by (simp add: stub_mixture)
qed

lemma qc_one_stub_pair:
  "qc_one stub_tables stub_lib (Fin (1 / 10 ^ 3)) ''null-mle'' (pair_locus 0 0 0 100\<lparr>cohort := c\<rparr>) =
     Inr ((\<lparr>kf_SNPID = [''rs1'', ''rs2''], kf_z = [Fin 0, Fin 0],
              kf_condmean = [Fin 0, Fin 0], kf_condvar = [Fin 1, Fin 1],
              kf_z_std_diff = [Fin 0, Fin 0], kf_logLR = [Fin 0, Fin 0]\<rparr>, Fin 0, ''EUR_'' @ c),
          ([(''rs1'', NaN, NaN), (''rs2'', Fin 0, Fin 0)], ''EUR_'' @ c),
          ([''compare_maf'', ''EUR_'' @ c], ''EUR_'' @ c))"
proof -
  have n: "(1::int) < 100" and t: "(1 / 10 ^ 3 :: real) \<le> 1" by simp_all
  have c: "cohort_label (pair_locus 0 0 0 100\<lparr>cohort := c\<rparr>) = ''EUR_'' @ c"
    by (simp add: cohort_label_def pair_locus_def)
  have r: "ld_r (pair_locus 0 0 0 100\<lparr>cohort := c\<rparr>) = ld_r (pair_locus 0 0 0 100)"
    by simp
  have m: "compare_maf stub_tables l = Inr [''compare_maf'', cohort_label l]" for l
    by (simp add: stub_tables_def)
  show ?thesis
    unfolding qc_one_def Let_def cohort_irrelevant locus_defs r get_eigen_stub_pair sum.case
      estimate_s_rss_stub_pair [OF n t] prod.case option.case
      kriging_rss_stub_zero_pair_1e3 compute_dentist_s_stub_pair m c
    by (rule refl)
qed

theorem locus_qc_tables_witness:
  "fst (locus_qc stub_tables stub_lib [pair_locus 0 0 0 100\<lparr>cohort := ''c1''\<rparr>]
          (Fin (1 / 10 ^ 3)) ''null-mle'' None)
     = Inr [(''expected_z'',
             Expected_z [(\<lparr>kf_SNPID = [''rs1'', ''rs2''], kf_z = [Fin 0, Fin 0],
                kf_condmean = [Fin 0, Fin 0], kf_condvar = [Fin 1, Fin 1],
                kf_z_std_diff = [Fin 0, Fin 0], kf_logLR = [Fin 0, Fin 0]\<rparr>, Fin 0, ''EUR_c1'')]),
            (''dentist_s'', Dentist_s [([(''rs1'', NaN, NaN), (''rs2'', Fin 0, Fin 0)], ''EUR_c1'')]),
            (''compare_maf'', Compare_maf [([''compare_maf'', ''EUR_c1''], ''EUR_c1'')]),
            (''ld_4th_moment'', Table [''ld_4th_moment'', ''EUR_c1'']),
            (''ld_decay'', Table [''ld_decay'', ''EUR_c1''])]
   \<and> (\<exists>qc. fst (locus_qc stub_tables stub_lib
                 [pair_locus 0 0 0 100\<lparr>cohort := ''c1''\<rparr>, pair_locus 0 0 0 100\<lparr>cohort := ''c2''\<rparr>]
                 (Fin (1 / 10 ^ 3)) ''null-mle'' None) = Inr qc
         \<and> map fst qc =
             [''expected_z'', ''dentist_s'', ''compare_maf'', ''ld_4th_moment'', ''ld_decay'',
              ''cochran_q'', ''snp_missingness'']
         \<and> map_of qc ''cochran_q'' = Some (Table [''cochran_q'', ''EUR_c1'', ''EUR_c2''])
         \<and> map_of qc ''snp_missingness''
             = Some (Table [''snp_missingness'', ''EUR_c1'', ''EUR_c2'']))"
proof -
  let ?l1 = "pair_locus 0 0 0 100\<lparr>cohort := ''c1''\<rparr>"
  let ?l2 = "pair_locus 0 0 0 100\<lparr>cohort := ''c2''\<rparr>"
  have c: "cohort_label ?l1 = ''EUR_c1''" "cohort_label ?l2 = ''EUR_c2''"
    by (simp_all add: cohort_label_def pair_locus_def)
  obtain qc1 where qc1: "fst (locus_qc stub_tables stub_lib [?l1]
      (Fin (1 / 10 ^ 3)) ''null-mle'' None) = Inr qc1"
    unfolding locus_qc_def qc_loop.simps qc_one_stub_pair sum.case
    by (simp add: stub_tables_def)
  obtain qc2 where qc2: "fst (locus_qc stub_tables stub_lib [?l1, ?l2]
      (Fin (1 / 10 ^ 3)) ''null-mle'' None) = Inr qc2"
    unfolding locus_qc_def qc_loop.simps qc_one_stub_pair sum.case
    by (simp add: stub_tables_def)
  have t: "ld_4th_moment stub_tables ls = Inr (''ld_4th_moment'' # map cohort_label ls)"
    "ld_decay stub_tables ls = Inr (''ld_decay'' # map cohort_label ls)"
    "cochran_q stub_tables ls = Inr (''cochran_q'' # map cohort_label ls)"
    "snp_missingness stub_tables ls = Inr (''snp_missingness'' # map cohort_label ls)" for ls
    by (simp_all add: stub_tables_def)
  from locus_qc_tables [OF qc1]
  have 1: "qc1 = [(''expected_z'',
             Expected_z [(\<lparr>kf_SNPID = [''rs1'', ''rs2''], kf_z = [Fin 0, Fin 0],
                kf_condmean = [Fin 0, Fin 0], kf_condvar = [Fin 1, Fin 1],
                kf_z_std_diff = [Fin 0, Fin 0], kf_logLR = [Fin 0, Fin 0]\<rparr>, Fin 0, ''EUR_c1'')]),
            (''dentist_s'', Dentist_s [([(''rs1'', NaN, NaN), (''rs2'', Fin 0, Fin 0)], ''EUR_c1'')]),
            (''compare_maf'', Compare_maf [([''compare_maf'', ''EUR_c1''], ''EUR_c1'')]),
            (''ld_4th_moment'', Table [''ld_4th_moment'', ''EUR_c1'']),
            (''ld_decay'', Table [''ld_decay'', ''EUR_c1''])]"
    unfolding list.map qc_one_stub_pair t c by auto
  from locus_qc_tables [OF qc2]
  have 2: "map fst qc2 =
             [''expected_z'', ''dentist_s'', ''compare_maf'', ''ld_4th_moment'', ''ld_decay'',
              ''cochran_q'', ''snp_missingness'']
         \<and> map_of qc2 ''cochran_q'' = Some (Table [''cochran_q'', ''EUR_c1'', ''EUR_c2''])
         \<and> map_of qc2 ''snp_missingness''
             = Some (Table [''snp_missingness'', ''EUR_c1'', ''EUR_c2''])"
    unfolding list.map qc_one_stub_pair t c by auto
  show ?thesis
    using qc1 qc2 1 2 by auto
qed

section \<open>The conditional mean inside the pseudolikelihood\<close>

lemma fsum_Fin: "fsum (map Fin xs) = Fin (sum_list xs)"
  by (induction xs) (simp_all add: fsum_def zero_fl_def)

lemma fdot_Fin: "fdot (map Fin p) (map Fin x) = Fin (sum_list (map2 (*) p x))"
proof -
  have "map2 (*) (map Fin p) (map Fin x) = map Fin (map2 (*) p x)"
    by (induction p x rule: list_induct2') simp_all
  then show ?thesis
    unfolding fdot_def by (simp only: fsum_Fin)
qed

lemma sum_list_map2_nth:
  fixes p x :: "real list"
  assumes "length p = length x"
  shows "sum_list (map2 (*) p x) = (\<Sum>j = 0..<length x. p ! j * x ! j)"
proof -
  have "map2 (*) p x = map (\<lambda>j. p ! j * x ! j) [0..<length x]"
    using assms by (intro nth_equalityI) simp_all
  then show ?thesis
    by (simp add: sum_list_sum_nth atLeast_upt interv_sum_list_conv_sum_set_nat)
qed

lemma sum_list_filter_neq:
  fixes f :: "nat \<Rightarrow> real"
  shows "sum_list (map f (filter (\<lambda>j. j \<noteq> i) [0..<n])) = sum f ({0..<n} - {i})"
proof -
  have "distinct (filter (\<lambda>j. j \<noteq> i) [0..<n])"
    by simp
  then have "sum_list (map f (filter (\<lambda>j. j \<noteq> i) [0..<n])) = sum f (set (filter (\<lambda>j. j \<noteq> i) [0..<n]))"
    by (rule sum_list_distinct_conv_sum_set)
  also have "set (filter (\<lambda>j. j \<noteq> i) [0..<n]) = {0..<n} - {i}"
    by auto
  finally show ?thesis .
qed

lemma leave_one_out_identity:
  fixes p x :: "real list"
  assumes "length p = length x" and "i < length x" and "p ! i \<noteq> 0"
  shows "- (1 / p ! i) * sum_list (map2 (*) p x) + x ! i
       = - (1 / p ! i) * sum_list (map (\<lambda>j. p ! j * x ! j) (filter (\<lambda>j. j \<noteq> i) [0..<length x]))"
proof -
  let ?f = "\<lambda>j. p ! j * x ! j"
  have "(\<Sum>j = 0..<length x. ?f j) = ?f i + sum ?f ({0..<length x} - {i})"
    using assms(2) by (intro sum.remove) simp_all
  then show ?thesis
    using assms(3) by (simp add: sum_list_map2_nth [OF assms(1)] sum_list_filter_neq field_simps)
qed

lemma postmean_loo_nth:
  assumes P: "P ! i = map Fin p" and z: "z = map Fin x"
    and len: "length p = length x" and i: "i < length x" and d: "p ! i \<noteq> 0"
  shows "postmean P z ! i = loo_mean P z i"
proof -
  have "map (\<lambda>j. map Fin p ! j * map Fin x ! j) (filter (\<lambda>j. j \<noteq> i) [0..<length x])
      = map Fin (map (\<lambda>j. p ! j * x ! j) (filter (\<lambda>j. j \<noteq> i) [0..<length x]))"
    using len by (simp add: comp_def cong: map_cong)
  then have loo: "loo_mean P z i
      = Fin (- (1 / p ! i) * sum_list (map (\<lambda>j. p ! j * x ! j) (filter (\<lambda>j. j \<noteq> i) [0..<length x])))"
    unfolding loo_mean_def P z using i len d
    by (simp only: fsum_Fin length_map) (simp add: one_fl_def)
  have "postmean P z ! i = Fin (- (1 / p ! i) * sum_list (map2 (*) p x) + x ! i)"
    unfolding postmean_def z using i len d
    by (simp add: P fdot_Fin one_fl_def)
  then show ?thesis
    unfolding loo by (simp only: leave_one_out_identity [OF len i d])
qed

lemma zip3_map_upt:
  assumes "length z = n"
  shows "zip z (zip (map f [0..<n]) (map g [0..<n])) = map (\<lambda>i. (z ! i, f i, g i)) [0..<n]"
  using assms by (intro nth_equalityI) simp_all

text \<open>
  The algebra of the claim holds for the matrix the source has at hand: when the matrix
  \<open>P\<close> that \<^verbatim>\<open>pseudolikelihood\<close> builds is a square matrix of finite entries with a
  nonzero diagonal, of the size of a finite \<open>z\<close>, then \<^verbatim>\<open>postmean[i]\<close>, computed as
  \<open>-(1/P[i,i]) (P[i,:] z) + z[i]\<close>, is the leave-one-out mean of \<open>P\<close>, \<^verbatim>\<open>postvar[i]\<close> is
  \<open>1/P[i,i]\<close>, and the objective is the leave-one-out objective of \<open>P\<close>.
\<close>

lemma pseudolikelihood_loo_form:
  assumes "pseudo_precision s ev V = map (map Fin) p"
    and "z = map Fin x"
    and "length p = length x"
    and "\<forall>row\<in>set p. length row = length x"
    and "\<forall>i<length x. p ! i ! i \<noteq> 0"
  shows "(\<forall>i<length z.
            postmean (pseudo_precision s ev V) z ! i = loo_mean (pseudo_precision s ev V) z i
          \<and> postvar (pseudo_precision s ev V) z ! i = loo_var (pseudo_precision s ev V) i)
       \<and> pseudolikelihood s z ev V = loo_objective (pseudo_precision s ev V) z"
proof -
  let ?P = "pseudo_precision s ev V"
  have mean: "postmean ?P z ! i = loo_mean ?P z i" if "i < length z" for i
  proof -
    have i: "i < length x" using that assms(2) by simp
    then have "?P ! i = map Fin (p ! i)" "length (p ! i) = length x" "p ! i ! i \<noteq> 0"
      using assms(1,3,4,5) by simp_all
    then show ?thesis
      using assms(2) i by (intro postmean_loo_nth)
  qed
  have var: "postvar ?P z ! i = loo_var ?P i" if "i < length z" for i
    using that by (simp add: postvar_def loo_var_def)
  have "map (\<lambda>(x, m, v). norm_logpdf x m (fsqrt v)) (zip z (zip (postmean ?P z) (postvar ?P z)))
      = map (\<lambda>i. norm_logpdf (z ! i) (loo_mean ?P z i) (fsqrt (loo_var ?P i))) [0..<length z]"
  proof -
    have "zip z (zip (postmean ?P z) (postvar ?P z))
        = map (\<lambda>i. (z ! i, postmean ?P z ! i, postvar ?P z ! i)) [0..<length z]"
      by (intro nth_equalityI) (simp_all add: postmean_def postvar_def)
    then show ?thesis
      using mean var by (simp add: comp_def cong: map_cong)
  qed
  then have "pseudolikelihood s z ev V = loo_objective ?P z"
    by (simp add: pseudolikelihood_def loo_objective_def Let_def)
  with mean var show ?thesis by blast
qed

section \<open>Calling \<^verbatim>\<open>kriging_rss\<close> twice\<close>

lemma update_eigvals_twice: "e\<lparr>eigvals := a\<rparr>\<lparr>eigvals := b\<rparr> = e\<lparr>eigvals := b\<rparr>" for e :: eigens
  by simp

lemma kriging_rss_estimated:
  assumes "1 < sample_size l"
  shows "kriging_rss L l r_tol None (Some e) =
           kriging_rss L l r_tol
             (Some (minimize_scalar L
                (\<lambda>s. negloglikelihood s
                   (matvec (transpose (eigvecs e)) (transform_z (sample_size l) (z_scores l)))
                   (clamp (Fin (1 / 10 ^ 8)) (eigvals e)))
                (0, 1) (Some (Fin (sqrt (2 powr (- 52)))))))
             (Some (e\<lparr>eigvals := clamp (Fin (1 / 10 ^ 8)) (eigvals e)\<rparr>))"
proof -
  have est: "estimate_s_rss L l t ''null-mle''
      (Some \<lparr>eigvals = eigvals e, eigvecs = eigvecs e\<rparr>)
    = (Inr (minimize_scalar L
                (\<lambda>s. negloglikelihood s
                   (matvec (transpose (eigvecs e)) (transform_z (sample_size l) (z_scores l)))
                   (clamp t (eigvals e)))
                (0, 1) (Some (Fin (sqrt (2 powr (- 52)))))),
       Some \<lparr>eigvals = clamp t (eigvals e), eigvecs = eigvecs e\<rparr>)" for t
    using assms by (simp add: estimate_s_rss_def locus_defs spectrum_of_Some Let_def)
  show ?thesis
    unfolding kriging_rss_given
    using assms
    by (simp add: kriging_rss_def locus_defs spectrum_of_Some est Let_def rev_clamp
        split: sum.splits)
qed


section \<open>The estimate of \<open>s\<close> before and after the clamp\<close>




lemma z_scores_diag: "z_scores (diag_locus b1 b2 v n) = [Fin b1, Fin b2]"
  by (simp add: z_scores_def diag_locus_def locus_defs)

lemma diag_locus_sel:
  "sample_size (diag_locus b1 b2 v n) = n"
  "map snpid (sumstats (diag_locus b1 b2 v n)) = [''rs1'', ''rs2'']"
  by (simp_all add: diag_locus_def)

lemma sqrt_11025: "sqrt (11025 / 10816) = 105 / 104"
  by (rule real_sqrt_unique) (simp_all add: power2_eq_square)

lemma transform_z_50: "transform_z 50 [Fin (4/15), Fin 0] = [Fin (7/26), Fin 0]"
proof -
  have "49 / (4 / 15 * (4 / 15) + 50 - 2) = (11025 / 10816 :: real)"
    by simp
  then show ?thesis
    by (simp add: transform_z_def fl_defs sqrt_11025)
qed

lemma matvec_unit: "matvec (transpose [[Fin 1, Fin 0], [Fin 0, Fin 1]]) [Fin a, Fin 0] = [Fin a, Fin 0]"
  by (simp add: matvec_def transpose_2x2 fdot_def fsum_def fl_defs)

lemma kriging_precision_diag:
  assumes "0 < x"
  shows "kriging_precision (Fin x) [Fin 1, Fin 0] [[Fin 0, Fin 1], [Fin 1, Fin 0]]
     = [[Fin (1 / x), Fin 0], [Fin 0, Fin 1]]"
  using assms
  by (simp add: kriging_precision_def matmul_def transpose_2x2 fdot_def fsum_def fl_defs)

lemma condmean_diag:
  assumes "0 < x"
  shows "condmean [[Fin (1 / x), Fin 0], [Fin 0, Fin 1]] [Fin a, Fin b] = [Fin 0, Fin 0]"
  using assms by (simp add: condmean_def fdot_def fsum_def fl_defs numeral_2_eq_2)

lemma condvar_diag:
  assumes "0 < x"
  shows "condvar [[Fin (1 / x), Fin 0], [Fin 0, Fin 1]] [Fin a, Fin b] = [Fin x, Fin 1]"
  using assms by (simp add: condvar_def fl_defs numeral_2_eq_2)

lemma z_std_diff_diag:
  assumes "0 < x"
  shows "z_std_diff [Fin a, Fin b] [Fin 0, Fin 0] [Fin x, Fin 1] = map Fin [a / sqrt x, b]"
  using assms by (simp add: z_std_diff_def fl_defs)

lemma kriging_rss_diag:
  assumes n: "1 < n" and x: "0 < x"
    and z: "transform_z n [Fin b1, Fin b2] = [Fin t1, Fin t2]"
    and cl: "clamp (Fin t) [Fin lam, Fin 1] = [Fin 0, Fin 1]"
  shows "\<exists>g. kriging_rss L (diag_locus b1 b2 v n) (Fin t) (Some (Fin x)) (Some (unit_spectrum lam 1))
    = (case mixture_logLR L [Fin t1, Fin t2] [Fin 0, Fin 0] [Fin x, Fin 1] g of
         Inl err \<Rightarrow> (Inl err, Some (unit_spectrum 0 1))
       | Inr lr \<Rightarrow>
           (Inr \<lparr>kf_SNPID = [''rs1'', ''rs2''], kf_z = [Fin t1, Fin t2],
                 kf_condmean = [Fin 0, Fin 0], kf_condvar = [Fin x, Fin 1],
                 kf_z_std_diff = map Fin [t1 / sqrt x, t2], kf_logLR = lr\<rparr>,
            Some (unit_spectrum 0 1)))"
proof -
  obtain g where g: "obtain_grid [Fin t1, Fin t2] (map Fin [t1 / sqrt x, t2]) = Inr g"
    using obtain_grid_finite [of "[t1 / sqrt x, t2]" "[Fin t1, Fin t2]"] by auto
  have ev: "eigvals (unit_spectrum lam 1) = [Fin lam, Fin 1]"
    "map rev (eigvecs (unit_spectrum lam 1)) = [[Fin 0, Fin 1], [Fin 1, Fin 0]]"
    by (simp_all add: unit_spectrum_def)
  have cl': "clamp (Fin t) (rev [Fin lam, Fin 1]) = [Fin 1, Fin 0]"
    unfolding clamp_rev cl by simp
  have e: "unit_spectrum lam 1\<lparr>eigvals := [Fin 0, Fin 1]\<rparr> = unit_spectrum 0 1"
    by (simp add: unit_spectrum_def)
  have "kriging_rss L (diag_locus b1 b2 v n) (Fin t) (Some (Fin x)) (Some (unit_spectrum lam 1))
    = (case mixture_logLR L [Fin t1, Fin t2] [Fin 0, Fin 0] [Fin x, Fin 1] g of
         Inl err \<Rightarrow> (Inl err, Some (unit_spectrum 0 1))
       | Inr lr \<Rightarrow>
           (Inr \<lparr>kf_SNPID = [''rs1'', ''rs2''], kf_z = [Fin t1, Fin t2],
                 kf_condmean = [Fin 0, Fin 0], kf_condvar = [Fin x, Fin 1],
                 kf_z_std_diff = map Fin [t1 / sqrt x, t2], kf_logLR = lr\<rparr>,
            Some (unit_spectrum 0 1)))"
    using n
    unfolding kriging_rss_given ev cl cl' z_scores_diag diag_locus_sel Let_def e z
      kriging_precision_diag [OF x] condmean_diag [OF x] condvar_diag [OF x]
      z_std_diff_diag [OF x] g
    by (simp split: sum.splits)
  then show ?thesis ..
qed




section \<open>Calling \<^verbatim>\<open>kriging_rss\<close> twice: the two clamps\<close>

lemma fl_less_le_trans: "x < r \<Longrightarrow> r \<le> t \<Longrightarrow> x < t" for x r t :: fl
  by (cases x; cases r; cases t) simp_all

lemma clamp_clamp_between:
  assumes "\<forall>x\<in>set ev. x < r \<longrightarrow> x < t"
  shows "clamp r (clamp t ev) = clamp t ev"
proof -
  have "(if (if x < t then 0 else x) < r then 0 else (if x < t then 0 else x))
          = (if x < t then 0 else x)" if "x \<in> set ev" for x
    using assms that by auto
  then show ?thesis
    by (simp add: clamp_def)
qed

lemma clamp_clamp_le:
  assumes "r \<le> t"
  shows "clamp r (clamp t ev) = clamp t ev"
  using fl_less_le_trans [OF _ assms] by (intro clamp_clamp_between) blast




section \<open>The matrix inside the pseudolikelihood\<close>

lemma estimate_s_rss_pseudomle:
  assumes "1 < sample_size l"
  shows "estimate_s_rss L l r_tol ''null-pseudomle'' (Some e) =
           (Inr (minimize_scalar L
                   (\<lambda>s. pseudolikelihood s (transform_z (sample_size l) (z_scores l))
                          (clamp r_tol (eigvals e)) (eigvecs e))
                   (0, 1) None),
            Some (e\<lparr>eigvals := clamp r_tol (eigvals e)\<rparr>))"
  using assms by (simp add: estimate_s_rss_def locus_defs spectrum_of_Some Let_def)

lemma corr_spectrum_sel:
  "eigvals (corr_spectrum r) = [Fin (1 - r), Fin (1 + r)]"
  "eigvecs (corr_spectrum r)
     = [[Fin (sqrt 2 / 2), Fin (sqrt 2 / 2)], [Fin (- (sqrt 2 / 2)), Fin (sqrt 2 / 2)]]"
  by (simp_all add: corr_spectrum_def)

lemma half_sqrt2: "sqrt 2 / 2 * (sqrt 2 / 2) = 1 / 2" "sqrt 2 * sqrt 2 = 2"
  by simp_all

text \<open>
  \<open>corr_spectrum r\<close> is the spectrum of the LD matrix of \<open>pair_locus b1 b2 r n\<close>: the
  eigenvectors are orthonormal and \<open>V diag(\<lambda>) V\<^sup>T\<close> is the matrix.
\<close>

lemma corr_spectrum_orthonormal:
  "matmul (eigvecs (corr_spectrum r)) (transpose (eigvecs (corr_spectrum r)))
     = [[Fin 1, Fin 0], [Fin 0, Fin 1]]"
  by (simp add: corr_spectrum_sel matmul_def transpose_2x2 fdot_def fsum_def fl_defs)

lemma corr_spectrum_decomposes:
  "matmul (matmul (eigvecs (corr_spectrum r)) (diag_matrix (eigvals (corr_spectrum r))))
          (transpose (eigvecs (corr_spectrum r)))
     = ld_r (pair_locus b1 b2 r n)"
  by (simp add: corr_spectrum_sel pair_locus_sel matmul_def diag_matrix_def transpose_2x2
      fdot_def fsum_def fl_defs numeral_2_eq_2 field_simps)

text \<open>
  The two matrices at this spectrum, for a correlation \<open>r\<close> and a regularisation \<open>s\<close> with
  nonzero denominators \<open>d\<^sub>1 = (1 - s) (1 - r) + s\<close> and \<open>d\<^sub>2 = (1 - s) (1 + r) + s\<close>: the
  source's matrix is diagonal whatever the correlation is, the spec's is not.
\<close>

lemma pseudo_precision_corr:
  assumes "(1 - s) * (1 - r) + s = d1" and "(1 - s) * (1 + r) + s = d2"
    and "d1 \<noteq> 0" and "d2 \<noteq> 0"
  shows "pseudo_precision (Fin s) (eigvals (corr_spectrum r)) (eigvecs (corr_spectrum r))
     = [[Fin (1 / d1), Fin 0], [Fin 0, Fin (1 / d2)]]"
proof -
  have den: "map (\<lambda>di. (1 - Fin s) * di + Fin s) [Fin (1 - r), Fin (1 + r)] = [Fin d1, Fin d2]"
    using assms(1,2) by (simp add: fl_defs)
  show ?thesis
    unfolding pseudo_precision_def corr_spectrum_sel den
    using assms(3,4)
    by (simp add: matmul_def transpose_2x2 fdot_def fsum_def fl_defs field_simps)
qed

lemma spec_precision_corr:
  assumes "(1 - s) * (1 - r) + s = d1" and "(1 - s) * (1 + r) + s = d2"
    and "d1 \<noteq> 0" and "d2 \<noteq> 0"
  shows "spec_precision (Fin s) (eigvals (corr_spectrum r)) (eigvecs (corr_spectrum r))
     = [[Fin ((1 / d1 + 1 / d2) / 2), Fin ((1 / d2 - 1 / d1) / 2)],
        [Fin ((1 / d2 - 1 / d1) / 2), Fin ((1 / d1 + 1 / d2) / 2)]]"
proof -
  have den: "map (\<lambda>di. 1 / ((1 - Fin s) * di + Fin s)) [Fin (1 - r), Fin (1 + r)]
      = [Fin (1 / d1), Fin (1 / d2)]"
    using assms by (simp add: fl_defs)
  have dm: "diag_matrix [Fin (1 / d1), Fin (1 / d2)] = [[Fin (1 / d1), Fin 0], [Fin 0, Fin (1 / d2)]]"
    by (simp add: diag_matrix_def numeral_2_eq_2 fl_defs)
  show ?thesis
    unfolding spec_precision_def corr_spectrum_sel den dm
    using assms(3,4)
    by (simp add: matmul_def transpose_2x2 fdot_def fsum_def fl_defs field_simps)
qed

lemma postmean_diagonal:
  assumes "p1 \<noteq> 0" and "p2 \<noteq> 0"
  shows "postmean [[Fin p1, Fin 0], [Fin 0, Fin p2]] [Fin z1, Fin z2] = [Fin 0, Fin 0]"
    and "postvar [[Fin p1, Fin 0], [Fin 0, Fin p2]] [Fin z1, Fin z2] = [Fin (1 / p1), Fin (1 / p2)]"
  using assms
  by (simp_all add: postmean_def postvar_def fdot_def fsum_def fl_defs numeral_2_eq_2)

lemma norm_logpdf_Fin:
  assumes "0 < v"
  shows "norm_logpdf (Fin x) (Fin m) (Fin (sqrt v))
       = Fin (- ((x - m) * (x - m) / (2 * v)) - ln (sqrt (2 * pi)) - ln v / 2)"
proof -
  have s: "0 < sqrt v" "sqrt v \<noteq> 0"
    using assms by simp_all
  have "(x - m) / sqrt v * ((x - m) / sqrt v) = (x - m) * (x - m) / v"
    using assms by (simp add: field_simps)
  then show ?thesis
    using assms s by (simp add: norm_logpdf_def fl_defs Let_def ln_sqrt)
qed

lemma loo_spec_corr:
  assumes "p \<noteq> 0"
  shows "map (loo_mean [[Fin p, Fin q], [Fin q, Fin p]] [Fin z1, Fin z2]) [0, 1]
           = [Fin (- (1 / p) * (q * z2)), Fin (- (1 / p) * (q * z1))]"
    and "map (loo_var [[Fin p, Fin q], [Fin q, Fin p]]) [0, 1] = [Fin (1 / p), Fin (1 / p)]"
  using assms
  by (simp_all add: loo_mean_def loo_var_def fsum_def fl_defs numeral_2_eq_2)

lemma pseudolikelihood_corr_half:
  "pseudolikelihood (Fin (1/2)) [Fin 1, Fin 0] (eigvals (corr_spectrum (1/2)))
       (eigvecs (corr_spectrum (1/2)))
     = Fin (2/3 + (ln (3/4) + ln (5/4)) / 2 + 2 * ln (sqrt (2 * pi)))"
proof -
  have d: "(1 - 1/2) * (1 - 1/2) + 1/2 = (3/4 :: real)" "(1 - 1/2) * (1 + 1/2) + 1/2 = (5/4 :: real)"
    "(3/4 :: real) \<noteq> 0" "(5/4 :: real) \<noteq> 0"
    by simp_all
  have nz: "(1 / (3/4) :: real) \<noteq> 0" "(1 / (5/4) :: real) \<noteq> 0"
    by simp_all
  have v: "(0::real) < 3/4" "(0::real) < 5/4"
    by simp_all
  have pv: "[Fin (1 / (1 / (3/4))), Fin (1 / (1 / (5/4)))] = [Fin (3/4), Fin (5/4)]"
    by simp
  have f: "fsqrt (Fin (3/4)) = Fin (sqrt (3/4))" "fsqrt (Fin (5/4)) = Fin (sqrt (5/4))"
    by simp_all
  show ?thesis
    unfolding pseudolikelihood_def Let_def pseudo_precision_corr [OF d] postmean_diagonal [OF nz] pv
      zip.simps list.case list.map prod.case f norm_logpdf_Fin [OF v(1)] norm_logpdf_Fin [OF v(2)]
    by (simp add: fsum_def fl_defs)
qed

lemma pseudolikelihood_loo_corr_half:
  "pseudolikelihood_loo (Fin (1/2)) [Fin 1, Fin 0] (eigvals (corr_spectrum (1/2)))
       (eigvecs (corr_spectrum (1/2)))
     = Fin (17/30 + ln (15/16) + 2 * ln (sqrt (2 * pi)))"
proof -
  have d: "(1 - 1/2) * (1 - 1/2) + 1/2 = (3/4 :: real)" "(1 - 1/2) * (1 + 1/2) + 1/2 = (5/4 :: real)"
    "(3/4 :: real) \<noteq> 0" "(5/4 :: real) \<noteq> 0"
    by simp_all
  have P: "spec_precision (Fin (1/2)) (eigvals (corr_spectrum (1/2))) (eigvecs (corr_spectrum (1/2)))
      = [[Fin (16/15), Fin (- (4/15))], [Fin (- (4/15)), Fin (16/15)]]"
    using spec_precision_corr [OF d] by simp
  have v: "(0::real) < 15/16"
    by simp
  have m: "loo_mean [[Fin (16/15), Fin (- (4/15))], [Fin (- (4/15)), Fin (16/15)]] [Fin 1, Fin 0] 0 = Fin 0"
    "loo_mean [[Fin (16/15), Fin (- (4/15))], [Fin (- (4/15)), Fin (16/15)]] [Fin 1, Fin 0] (Suc 0) = Fin (1/4)"
    "loo_var [[Fin (16/15), Fin (- (4/15))], [Fin (- (4/15)), Fin (16/15)]] 0 = Fin (15/16)"
    "loo_var [[Fin (16/15), Fin (- (4/15))], [Fin (- (4/15)), Fin (16/15)]] (Suc 0) = Fin (15/16)"
    by (simp_all add: loo_mean_def loo_var_def fsum_def fl_defs numeral_2_eq_2)
  have u: "[0..<length [Fin 1, Fin 0]] = [0, Suc 0]"
    by (simp add: numeral_2_eq_2)
  have f: "fsqrt (Fin (15/16)) = Fin (sqrt (15/16))"
    by simp
  show ?thesis
    unfolding pseudolikelihood_loo_def loo_objective_def P u list.map m nth_Cons_0 nth_Cons_Suc f
      norm_logpdf_Fin [OF v]
    by (simp add: fsum_def fl_defs)
qed

text \<open>
  C2 fails on the source. Take the locus of two variants with the z-scores 1 and 0, the
  correlation \<open>1/2\<close> and the sample size 100, which the transform of the z-scores leaves
  as they are, and the spectrum of its LD matrix, which the clamp leaves as it is; the
  objective that \<^verbatim>\<open>estimate_s_rss\<close> hands to the minimiser (lemma
  \<open>estimate_s_rss_pseudomle\<close>) is evaluated at \<open>s = 1/2\<close>. The spec's matrix
  \<open>V diag(1/((1 - s) \<lambda> + s)) V\<^sup>T\<close> has the off-diagonal entries \<open>-4/15\<close>, the leave-one-out
  means are 0 and \<open>1/4\<close> and the variances \<open>15/16\<close>. The matrix of the source,
  \<^verbatim>\<open>eigvecs @ (eigvecs.T / ((1 - s) * eigvals + s))\<close>, is diagonal: \<^verbatim>\<open>postmean\<close> is 0 for
  both variants, \<^verbatim>\<open>postvar\<close> is \<open>(3/4, 5/4)\<close>, and the objective is not the negative sum of
  the log-densities under the leave-one-out means and variances of the spec. The values
  are those of exact arithmetic; rounding moves them in their last digits only, and the
  two means of the second variant are 0 and \<open>1/4\<close>.
\<close>

theorem pseudolikelihood_precision_divergence:
  "transform_z (sample_size (pair_locus 1 0 (1/2) 100)) (z_scores (pair_locus 1 0 (1/2) 100))
     = [Fin 1, Fin 0]
   \<and> clamp (Fin (1 / 10 ^ 8)) (eigvals (corr_spectrum (1/2))) = eigvals (corr_spectrum (1/2))
   \<and> spec_precision (Fin (1/2)) (eigvals (corr_spectrum (1/2))) (eigvecs (corr_spectrum (1/2)))
       = [[Fin (16/15), Fin (- (4/15))], [Fin (- (4/15)), Fin (16/15)]]
   \<and> pseudo_precision (Fin (1/2)) (eigvals (corr_spectrum (1/2))) (eigvecs (corr_spectrum (1/2)))
       = [[Fin (4/3), Fin 0], [Fin 0, Fin (4/5)]]
   \<and> map (loo_mean (spec_precision (Fin (1/2)) (eigvals (corr_spectrum (1/2)))
                  (eigvecs (corr_spectrum (1/2)))) [Fin 1, Fin 0]) [0, 1]
       = [Fin 0, Fin (1/4)]
   \<and> postmean (pseudo_precision (Fin (1/2)) (eigvals (corr_spectrum (1/2)))
                  (eigvecs (corr_spectrum (1/2)))) [Fin 1, Fin 0]
       = [Fin 0, Fin 0]
   \<and> map (loo_var (spec_precision (Fin (1/2)) (eigvals (corr_spectrum (1/2)))
                  (eigvecs (corr_spectrum (1/2))))) [0, 1]
       = [Fin (15/16), Fin (15/16)]
   \<and> postvar (pseudo_precision (Fin (1/2)) (eigvals (corr_spectrum (1/2)))
                  (eigvecs (corr_spectrum (1/2)))) [Fin 1, Fin 0]
       = [Fin (3/4), Fin (5/4)]
   \<and> pseudolikelihood (Fin (1/2)) [Fin 1, Fin 0] (eigvals (corr_spectrum (1/2)))
         (eigvecs (corr_spectrum (1/2)))
       \<noteq> pseudolikelihood_loo (Fin (1/2)) [Fin 1, Fin 0] (eigvals (corr_spectrum (1/2)))
           (eigvecs (corr_spectrum (1/2)))"
proof -
  have d: "(1 - 1/2) * (1 - 1/2) + 1/2 = (3/4 :: real)" "(1 - 1/2) * (1 + 1/2) + 1/2 = (5/4 :: real)"
    "(3/4 :: real) \<noteq> 0" "(5/4 :: real) \<noteq> 0"
    by simp_all
  have z: "transform_z (sample_size (pair_locus 1 0 (1/2) 100)) (z_scores (pair_locus 1 0 (1/2) 100))
     = [Fin 1, Fin 0]"
    unfolding pair_locus_sel z_scores_pair by (rule transform_z_100)
  have cl: "clamp (Fin (1 / 10 ^ 8)) (eigvals (corr_spectrum (1/2))) = eigvals (corr_spectrum (1/2))"
    by (simp add: clamp_def corr_spectrum_sel fl_defs)
  have P: "spec_precision (Fin (1/2)) (eigvals (corr_spectrum (1/2))) (eigvecs (corr_spectrum (1/2)))
      = [[Fin (16/15), Fin (- (4/15))], [Fin (- (4/15)), Fin (16/15)]]"
    using spec_precision_corr [OF d] by simp
  have Q: "pseudo_precision (Fin (1/2)) (eigvals (corr_spectrum (1/2))) (eigvecs (corr_spectrum (1/2)))
      = [[Fin (4/3), Fin 0], [Fin 0, Fin (4/5)]]"
    using pseudo_precision_corr [OF d] by simp
  have nz: "(4/3 :: real) \<noteq> 0" "(4/5 :: real) \<noteq> 0" "(16/15 :: real) \<noteq> 0"
    by simp_all
  have lm: "map (loo_mean [[Fin (16/15), Fin (- (4/15))], [Fin (- (4/15)), Fin (16/15)]]
               [Fin 1, Fin 0]) [0, 1] = [Fin 0, Fin (1/4)]"
    using loo_spec_corr(1) [OF nz(3), of "- (4/15)" 1 0] by simp
  have lv: "map (loo_var [[Fin (16/15), Fin (- (4/15))], [Fin (- (4/15)), Fin (16/15)]]) [0, 1]
      = [Fin (15/16), Fin (15/16)]"
    using loo_spec_corr(2) [OF nz(3), of "- (4/15)"] by simp
  have pm: "postmean [[Fin (4/3), Fin 0], [Fin 0, Fin (4/5)]] [Fin 1, Fin 0] = [Fin 0, Fin 0]"
    by (rule postmean_diagonal(1) [OF nz(1,2)])
  have pv: "postvar [[Fin (4/3), Fin 0], [Fin 0, Fin (4/5)]] [Fin 1, Fin 0] = [Fin (3/4), Fin (5/4)]"
    using postmean_diagonal(2) [OF nz(1,2), of 1 0] by simp
  have l: "ln (3/4) + ln (5/4) = ln (15/16 :: real)"
    using ln_mult [of "3/4 :: real" "5/4"] by simp
  have neg: "ln (15/16 :: real) < 0"
    by simp
  have "17/30 + ln (15/16) + 2 * ln (sqrt (2 * pi))
        < 2/3 + (ln (3/4) + ln (5/4)) / 2 + 2 * ln (sqrt (2 * pi))"
    unfolding l using neg by linarith
  then have ne: "pseudolikelihood (Fin (1/2)) [Fin 1, Fin 0] (eigvals (corr_spectrum (1/2)))
         (eigvecs (corr_spectrum (1/2)))
       \<noteq> pseudolikelihood_loo (Fin (1/2)) [Fin 1, Fin 0] (eigvals (corr_spectrum (1/2)))
           (eigvecs (corr_spectrum (1/2)))"
    unfolding pseudolikelihood_corr_half pseudolikelihood_loo_corr_half by simp
  show ?thesis
    unfolding P Q
    using z cl lm pm lv pv ne [unfolded P Q] by (intro conjI) (rule refl | assumption)+
qed

section \<open>Calling \<^verbatim>\<open>kriging_rss\<close> twice with a minimiser that is not exact\<close>

text \<open>
  The two calls of the counterexample return different columns \<^verbatim>\<open>condvar\<close> with every
  library whose minimiser comes within \<open>2e-4\<close> of the two exact minimisers
  \<open>24331/337831\<close> and \<open>49/676\<close>, which lie \<open>4.6e-4\<close> apart: \<^verbatim>\<open>condvar[0]\<close> is the estimate
  of \<open>s\<close> itself.
\<close>

lemma kriging_rss_diag_estimated:
  assumes m: "minimize_scalar L (\<lambda>s. negloglikelihood s [Fin (7/26), Fin 0] [Fin lam, Fin 1])
                 (0, 1) (Some (Fin (sqrt (2 powr (- 52))))) = Fin x"
    and x: "0 < x"
    and cl8: "clamp (Fin (1 / 10 ^ 8)) [Fin lam, Fin 1] = [Fin lam, Fin 1]"
    and cl3: "clamp (Fin (1 / 10 ^ 3)) [Fin lam, Fin 1] = [Fin 0, Fin 1]"
    and f: "fst (kriging_rss L (diag_locus (4/15) 0 v 50) (Fin (1 / 10 ^ 3)) None
                   (Some (unit_spectrum lam 1))) = Inr f"
  shows "kf_condvar f = [Fin x, Fin 1]"
proof -
  let ?l = "diag_locus (4/15) 0 v 50"
  have n: "1 < sample_size ?l" "(1::int) < 50"
    by (simp_all add: diag_locus_sel)
  have ev: "eigvals (unit_spectrum lam 1) = [Fin lam, Fin 1]"
    "eigvecs (unit_spectrum lam 1) = [[Fin 1, Fin 0], [Fin 0, Fin 1]]"
    by (simp_all add: unit_spectrum_def)
  have e: "unit_spectrum lam 1\<lparr>eigvals := [Fin lam, Fin 1]\<rparr> = unit_spectrum lam 1"
    by (simp add: unit_spectrum_def)
  have step: "kriging_rss L ?l (Fin (1 / 10 ^ 3)) None (Some (unit_spectrum lam 1))
      = kriging_rss L ?l (Fin (1 / 10 ^ 3)) (Some (Fin x)) (Some (unit_spectrum lam 1))"
    unfolding kriging_rss_estimated [OF n(1)] ev cl8 e z_scores_diag
      diag_locus_sel transform_z_50 matvec_unit m
    by (rule refl)
  from kriging_rss_diag [OF n(2) x transform_z_50 cl3, of L v]
  obtain g where g: "kriging_rss L ?l (Fin (1 / 10 ^ 3)) (Some (Fin x)) (Some (unit_spectrum lam 1))
    = (case mixture_logLR L [Fin (7/26), Fin 0] [Fin 0, Fin 0] [Fin x, Fin 1] g of
         Inl err \<Rightarrow> (Inl err, Some (unit_spectrum 0 1))
       | Inr lr \<Rightarrow>
           (Inr \<lparr>kf_SNPID = [''rs1'', ''rs2''], kf_z = [Fin (7/26), Fin 0],
                 kf_condmean = [Fin 0, Fin 0], kf_condvar = [Fin x, Fin 1],
                 kf_z_std_diff = map Fin [7/26 / sqrt x, 0], kf_logLR = lr\<rparr>,
            Some (unit_spectrum 0 1)))"
    by blast
  show ?thesis
    using f unfolding step g
    by (cases "mixture_logLR L [Fin (7/26), Fin 0] [Fin 0, Fin 0] [Fin x, Fin 1] g") auto
qed

lemma kriging_rss_twice_estimated_differs:
  assumes "minimize_scalar L (\<lambda>s. negloglikelihood s [Fin (7/26), Fin 0] [Fin (1/2000), Fin 1])
                 (0, 1) (Some (Fin (sqrt (2 powr (- 52))))) = Fin x1"
    and "minimize_scalar L (\<lambda>s. negloglikelihood s [Fin (7/26), Fin 0] [Fin 0, Fin 1])
                 (0, 1) (Some (Fin (sqrt (2 powr (- 52))))) = Fin x2"
    and "\<bar>x1 - 24331/337831\<bar> < 1/5000" and "\<bar>x2 - 49/676\<bar> < 1/5000"
    and "fst (kriging_rss L (diag_locus (4/15) 0 (1/2000) 50) (Fin (1 / 10 ^ 3)) None
                (Some (unit_spectrum (1/2000) 1))) = Inr f1"
    and "fst (kriging_rss L (diag_locus (4/15) 0 (1/2000) 50) (Fin (1 / 10 ^ 3)) None
                (Some (unit_spectrum 0 1))) = Inr f2"
  shows "kf_condvar f1 \<noteq> kf_condvar f2"
proof -
  have x: "0 < x1" "0 < x2" "x1 \<noteq> x2"
    using assms(3,4) by linarith+
  have c1: "clamp (Fin (1 / 10 ^ 8)) [Fin (1/2000), Fin 1] = [Fin (1/2000), Fin 1]"
    "clamp (Fin (1 / 10 ^ 3)) [Fin (1/2000), Fin 1] = [Fin 0, Fin 1]"
    "clamp (Fin (1 / 10 ^ 8)) [Fin 0, Fin 1] = [Fin 0, Fin 1]"
    "clamp (Fin (1 / 10 ^ 3)) [Fin 0, Fin 1] = [Fin 0, Fin 1]"
    by (simp_all add: clamp_def fl_defs)
  have "kf_condvar f1 = [Fin x1, Fin 1]"
    by (rule kriging_rss_diag_estimated [OF assms(1) x(1) c1(1,2) assms(5)])
  moreover have "kf_condvar f2 = [Fin x2, Fin 1]"
    by (rule kriging_rss_diag_estimated [OF assms(2) x(2) c1(3,4) assms(6)])
  ultimately show ?thesis
    using x(3) by simp
qed

end
